theory Spec2Isabelle
  imports Complex_Main "HOL-Library.Log_Nat" "HOL-Library.Multiset"
begin

section \<open>The quote mapper of the Xero quote skill\<close>

text \<open>
  This theory embeds the pure functions of the quote mapper (\<^verbatim>\<open>quote-mapper.ts\<close>):
  \<^verbatim>\<open>validateQuoteData\<close>, \<^verbatim>\<open>toQuoteData\<close>, \<^verbatim>\<open>calculateTotals\<close>,
  \<^verbatim>\<open>parseCurrency\<close> and \<^verbatim>\<open>parseQuantity\<close>, together with the parts of the
  JavaScript runtime they call: strings of UTF-16 code units, \<^verbatim>\<open>trim\<close>, regular
  expressions, \<^verbatim>\<open>parseFloat\<close> and the arithmetic of the \<^verbatim>\<open>number\<close> type.
\<close>

subsection \<open>Strings\<close>

text \<open>
  A JavaScript string is a sequence of UTF-16 code units. A code unit is modelled by its
  numeric value; \<open>js\<close> embeds an ASCII literal.
\<close>

type_synonym jchar = nat
type_synonym jstring = "jchar list"

definition js :: "string \<Rightarrow> jstring" where
  "js s = map of_char s"

text \<open>
  The code units that ECMAScript classifies as \<^verbatim>\<open>WhiteSpace\<close> or
  \<^verbatim>\<open>LineTerminator\<close>. The same set is removed by \<^verbatim>\<open>String.prototype.trim\<close>, skipped at
  the start of the argument of \<^verbatim>\<open>parseFloat\<close>, and matched by \<^verbatim>\<open>\s\<close> in a regular
  expression.
\<close>

definition isWhiteSpace :: "jchar \<Rightarrow> bool" where
  "isWhiteSpace c \<longleftrightarrow>
     c = 0x09 \<or> c = 0x0A \<or> c = 0x0B \<or> c = 0x0C \<or> c = 0x0D \<or> c = 0x20 \<or> c = 0xA0 \<or>
     c = 0x1680 \<or> (0x2000 \<le> c \<and> c \<le> 0x200A) \<or> c = 0x2028 \<or> c = 0x2029 \<or>
     c = 0x202F \<or> c = 0x205F \<or> c = 0x3000 \<or> c = 0xFEFF"

definition trim :: "jstring \<Rightarrow> jstring" where
  "trim s = rev (dropWhile isWhiteSpace (rev (dropWhile isWhiteSpace s)))"

definition isDigit :: "jchar \<Rightarrow> bool" where
  "isDigit c \<longleftrightarrow> 0x30 \<le> c \<and> c \<le> 0x39"

text \<open>\<^verbatim>\<open>s.split(sep)\<close> for a separator of one code unit: never the empty list.\<close>

fun split_str :: "jchar \<Rightarrow> jstring \<Rightarrow> jstring list" where
  "split_str sep [] = [[]]"
| "split_str sep (c # cs) =
     (if c = sep then [] # split_str sep cs
      else (case split_str sep cs of
              [] \<Rightarrow> [[c]]
            | p # ps \<Rightarrow> (c # p) # ps))"

subsection \<open>Numbers\<close>

text \<open>
  A JavaScript \<^verbatim>\<open>number\<close> is an IEEE 754 binary64 value. A finite value is modelled by
  the rational it denotes, the two infinities and NaN by constructors of their own. The
  model does not separate \<open>-0\<close> from \<open>+0\<close>: \<^verbatim>\<open>===\<close>, \<^verbatim>\<open><\<close> and \<^verbatim>\<open><=\<close>, the only
  observations the quote mapper makes of a number, do not separate them either.
\<close>

datatype number = Finite rat | PosInfinity | NegInfinity | NaN

definition isNaN :: "number \<Rightarrow> bool" where
  "isNaN n \<longleftrightarrow> n = NaN"

text \<open>The relational operators \<^verbatim>\<open><=\<close> and \<^verbatim>\<open><\<close>: false as soon as one side is NaN.\<close>

fun nle :: "number \<Rightarrow> number \<Rightarrow> bool" where
  "nle NaN b = False"
| "nle a NaN = False"
| "nle NegInfinity b = True"
| "nle a PosInfinity = True"
| "nle (Finite x) (Finite y) = (x \<le> y)"
| "nle a b = False"

fun nlt :: "number \<Rightarrow> number \<Rightarrow> bool" where
  "nlt NaN b = False"
| "nlt a NaN = False"
| "nlt PosInfinity b = False"
| "nlt a NegInfinity = False"
| "nlt (Finite x) (Finite y) = (x < y)"
| "nlt a b = True"

subsubsection \<open>Rounding to binary64\<close>

definition pow2 :: "int \<Rightarrow> rat" where
  "pow2 e = (if 0 \<le> e then 2 ^ nat e else 1 / 2 ^ nat (- e))"

definition pow10 :: "int \<Rightarrow> rat" where
  "pow10 e = (if 0 \<le> e then 10 ^ nat e else 1 / 10 ^ nat (- e))"

text \<open>The binary exponent of a non-zero rational: \<open>pow2 e \<le> \<bar>x\<bar> < pow2 (e + 1)\<close>.\<close>

definition ilog2 :: "rat \<Rightarrow> int" where
  "ilog2 x = (case quotient_of \<bar>x\<bar> of (p, q) \<Rightarrow>
     (let e = bitlen p - bitlen q in if pow2 e \<le> \<bar>x\<bar> then e else e - 1))"

text \<open>Rounding to the nearest integer, a tie going to the even neighbour.\<close>

definition roundTiesToEven :: "rat \<Rightarrow> int" where
  "roundTiesToEven x =
     (let f = \<lfloor>x\<rfloor>; d = x - of_int f
      in if d < 1 / 2 then f
         else if 1 / 2 < d then f + 1
         else if even f then f else f + 1)"

text \<open>
  The binary64 value of an exact result: 53 significant bits, exponents from \<open>-1022\<close>
  (below it the spacing of the subnormal numbers stays \<open>pow2 (-1074)\<close>), and an infinity
  once the rounded magnitude reaches \<open>pow2 1024\<close>.
\<close>

definition round_double :: "rat \<Rightarrow> number" where
  "round_double x =
     (if x = 0 then Finite 0
      else
        let e = max (ilog2 x) (- 1022);
            ulp = pow2 (e - 52);
            y = of_int (roundTiesToEven (x / ulp)) * ulp
        in if pow2 1024 \<le> y then PosInfinity
           else if y \<le> - pow2 1024 then NegInfinity
           else Finite y)"

subsubsection \<open>Arithmetic\<close>

fun nadd :: "number \<Rightarrow> number \<Rightarrow> number" where
  "nadd NaN b = NaN"
| "nadd a NaN = NaN"
| "nadd PosInfinity NegInfinity = NaN"
| "nadd NegInfinity PosInfinity = NaN"
| "nadd PosInfinity b = PosInfinity"
| "nadd NegInfinity b = NegInfinity"
| "nadd a PosInfinity = PosInfinity"
| "nadd a NegInfinity = NegInfinity"
| "nadd (Finite x) (Finite y) = round_double (x + y)"

text \<open>The sign of a number other than NaN, and the infinity of a given sign.\<close>

fun nsign :: "number \<Rightarrow> rat" where
  "nsign (Finite x) = sgn x"
| "nsign PosInfinity = 1"
| "nsign NegInfinity = - 1"
| "nsign NaN = 0"

definition infinity :: "rat \<Rightarrow> number" where
  "infinity s = (if s < 0 then NegInfinity else PosInfinity)"

fun nmul :: "number \<Rightarrow> number \<Rightarrow> number" where
  "nmul NaN b = NaN"
| "nmul a NaN = NaN"
| "nmul (Finite x) (Finite y) = round_double (x * y)"
| "nmul a b = (if nsign a * nsign b = 0 then NaN else infinity (nsign a * nsign b))"

text \<open>
  Division. A zero divisor is taken as \<open>+0\<close>; \<^verbatim>\<open>parseQuantity\<close>, the only function
  that divides, rejects a zero divisor before it divides.
\<close>

fun ndiv :: "number \<Rightarrow> number \<Rightarrow> number" where
  "ndiv NaN b = NaN"
| "ndiv a NaN = NaN"
| "ndiv (Finite x) (Finite y) =
     (if y = 0 then (if x = 0 then NaN else infinity x) else round_double (x / y))"
| "ndiv (Finite x) b = Finite 0"
| "ndiv a (Finite y) = infinity (nsign a * (if y < 0 then - 1 else 1))"
| "ndiv a b = NaN"

subsubsection \<open>\<^verbatim>\<open>parseFloat\<close>\<close>

text \<open>
  \<^verbatim>\<open>parseFloat\<close> skips leading white space and takes the longest prefix of the rest that
  is a \<^verbatim>\<open>StrDecimalLiteral\<close>: an optional sign, then \<^verbatim>\<open>Infinity\<close> or decimal digits
  with an optional fraction (at least one digit before or after the point) and an
  optional exponent part. Whatever follows that prefix is ignored. The result is NaN
  when there is no such prefix, and the binary64 value of the literal otherwise (the
  exact value of the literal, rounded once; the language lets an implementation
  drop the digits after the twentieth significant one first, which the common engines
  do not do).
\<close>

definition decimalValue :: "jstring \<Rightarrow> int" where
  "decimalValue ds = foldl (\<lambda>n c. 10 * n + (int c - 0x30)) 0 ds"

definition stripSign :: "jstring \<Rightarrow> rat \<times> jstring" where
  "stripSign t =
     (case t of
        [] \<Rightarrow> (1, [])
      | c # r \<Rightarrow> if c = 0x2D then (- 1, r) else if c = 0x2B then (1, r) else (1, t))"

text \<open>
  The value of the exponent part at the head of a string, \<open>0\<close> when there is none
  (an \<^verbatim>\<open>e\<close> that no digit follows belongs to the ignored rest).
\<close>

definition exponentPart :: "jstring \<Rightarrow> int" where
  "exponentPart r =
     (case r of
        [] \<Rightarrow> 0
      | c # r' \<Rightarrow>
          if c = 0x65 \<or> c = 0x45 then
            (case r' of
               [] \<Rightarrow> 0
             | d # r'' \<Rightarrow>
                 if d = 0x2D then - decimalValue (takeWhile isDigit r'')
                 else if d = 0x2B then decimalValue (takeWhile isDigit r'')
                 else decimalValue (takeWhile isDigit r'))
          else 0)"

definition parseFloat :: "jstring \<Rightarrow> number" where
  "parseFloat s =
     (case stripSign (dropWhile isWhiteSpace s) of (sg, u) \<Rightarrow>
        if take 8 u = js ''Infinity'' then infinity sg
        else
          let ip = takeWhile isDigit u;
              r1 = dropWhile isDigit u;
              fp = (case r1 of [] \<Rightarrow> [] | c # r \<Rightarrow> if c = 0x2E then takeWhile isDigit r else []);
              r2 = (case r1 of [] \<Rightarrow> [] | c # r \<Rightarrow> if c = 0x2E then dropWhile isDigit r else r1)
          in if ip = [] \<and> fp = [] then NaN
             else round_double
                    (sg * (of_int (decimalValue ip) + of_int (decimalValue fp) / 10 ^ length fp)
                        * pow10 (exponentPart r2)))"

subsection \<open>Errors\<close>

text \<open>
  \<^verbatim>\<open>Error\<close> is the exception the parsing helpers throw with \<^verbatim>\<open>new Error(message)\<close>
  (the specification calls it a format error); \<^verbatim>\<open>TypeError\<close> is what the runtime
  throws when a method is called on \<^verbatim>\<open>undefined\<close>.
\<close>

datatype error = Error jstring | TypeError

subsection \<open>Parsing amounts and quantities\<close>

text \<open>The argument type \<^verbatim>\<open>string | number\<close> of the two parsing helpers.\<close>

datatype string_or_number = Str jstring | Num number

text \<open>\<^verbatim>\<open>value.replace(/[$\<euro>,]/g, '')\<close> deletes every dollar sign, euro sign and comma.\<close>

definition isCurrencyOrComma :: "jchar \<Rightarrow> bool" where
  "isCurrencyOrComma c \<longleftrightarrow> c = 0x24 \<or> c = 0x20AC \<or> c = 0x2C"

definition parseCurrency :: "string_or_number \<Rightarrow> error + number" where
  "parseCurrency v =
     (case v of
        Num n \<Rightarrow> Inr n
      | Str value \<Rightarrow>
          let cleaned = trim (filter (\<lambda>c. \<not> isCurrencyOrComma c) value);
              parsed = parseFloat cleaned
          in if isNaN parsed then Inl (Error (js ''Invalid currency format: '' @ value))
             else Inr parsed)"

text \<open>
  In the fraction branch the array pattern \<^verbatim>\<open>[numerator, denominator]\<close> takes the first
  two parts; a part that does not exist would be \<^verbatim>\<open>undefined\<close>, for which \<^verbatim>\<open>isNaN\<close> is
  true.
\<close>

definition parseQuantity :: "string_or_number \<Rightarrow> error + number" where
  "parseQuantity v =
     (case v of
        Num n \<Rightarrow> Inr n
      | Str value \<Rightarrow>
          if 0x2F \<in> set value then
            (case map (\<lambda>n. parseFloat (trim n)) (split_str 0x2F value) of
               numerator # denominator # rest \<Rightarrow>
                 if isNaN numerator \<or> isNaN denominator \<or> denominator = Finite 0
                 then Inl (Error (js ''Invalid fraction format: '' @ value))
                 else Inr (ndiv numerator denominator)
             | _ \<Rightarrow> Inl (Error (js ''Invalid fraction format: '' @ value)))
          else
            let parsed = parseFloat (trim value)
            in if isNaN parsed \<or> nle parsed (Finite 0)
               then Inl (Error (js ''Invalid quantity: '' @ value))
               else Inr parsed)"

subsection \<open>Regular expressions\<close>

text \<open>
  Regular expressions built from character classes (a single character is a class of
  one member), alternation, concatenation, \<^verbatim>\<open>*\<close>, \<^verbatim>\<open>+\<close> and \<^verbatim>\<open>{n}\<close>. Both patterns of
  the validator are anchored by \<^verbatim>\<open>^\<close> and \<^verbatim>\<open>$\<close> and carry no flag, so \<^verbatim>\<open>test\<close>
  succeeds exactly when the whole string matches; \<open>test\<close> decides that by taking the
  derivative of the expression by each code unit in turn.
\<close>

datatype regex =
    Never
  | Epsilon
  | Class "jchar \<Rightarrow> bool"
  | Alt regex regex
  | Seq regex regex
  | Star regex

definition Plus :: "regex \<Rightarrow> regex" where
  "Plus r = Seq r (Star r)"

fun Repeat :: "nat \<Rightarrow> regex \<Rightarrow> regex" where
  "Repeat 0 r = Epsilon"
| "Repeat (Suc n) r = Seq r (Repeat n r)"

fun nullable :: "regex \<Rightarrow> bool" where
  "nullable Never = False"
| "nullable Epsilon = True"
| "nullable (Class p) = False"
| "nullable (Alt r s) = (nullable r \<or> nullable s)"
| "nullable (Seq r s) = (nullable r \<and> nullable s)"
| "nullable (Star r) = True"

fun deriv :: "jchar \<Rightarrow> regex \<Rightarrow> regex" where
  "deriv c Never = Never"
| "deriv c Epsilon = Never"
| "deriv c (Class p) = (if p c then Epsilon else Never)"
| "deriv c (Alt r s) = Alt (deriv c r) (deriv c s)"
| "deriv c (Seq r s) =
     (if nullable r then Alt (Seq (deriv c r) s) (deriv c s) else Seq (deriv c r) s)"
| "deriv c (Star r) = Seq (deriv c r) (Star r)"

definition test :: "regex \<Rightarrow> jstring \<Rightarrow> bool" where
  "test r s = nullable (foldl (\<lambda>r c. deriv c r) r s)"

text \<open>The set of strings an expression matches, by which \<open>test\<close> is justified below.\<close>

definition conc :: "jstring set \<Rightarrow> jstring set \<Rightarrow> jstring set" where
  "conc A B = {u @ v | u v. u \<in> A \<and> v \<in> B}"

inductive_set star :: "jstring set \<Rightarrow> jstring set" for A :: "jstring set" where
  star_nil: "[] \<in> star A"
| star_app: "u \<in> A \<Longrightarrow> v \<in> star A \<Longrightarrow> u @ v \<in> star A"

fun lang :: "regex \<Rightarrow> jstring set" where
  "lang Never = {}"
| "lang Epsilon = {[]}"
| "lang (Class p) = {[c] | c. p c}"
| "lang (Alt r s) = lang r \<union> lang s"
| "lang (Seq r s) = conc (lang r) (lang s)"
| "lang (Star r) = star (lang r)"

text \<open>\<^verbatim>\<open>/^[^\s@]+@[^\s@]+\.[^\s@]+$/\<close>\<close>

definition notSpaceOrAt :: "jchar \<Rightarrow> bool" where
  "notSpaceOrAt c \<longleftrightarrow> \<not> (isWhiteSpace c \<or> c = 0x40)"

definition emailRegex :: regex where
  "emailRegex =
     Seq (Plus (Class notSpaceOrAt))
       (Seq (Class (\<lambda>c. c = 0x40))
         (Seq (Plus (Class notSpaceOrAt))
           (Seq (Class (\<lambda>c. c = 0x2E))
             (Plus (Class notSpaceOrAt)))))"

text \<open>\<^verbatim>\<open>/^\d{4}-\d{2}-\d{2}$/\<close>\<close>

definition dateRegex :: regex where
  "dateRegex =
     Seq (Repeat 4 (Class isDigit))
       (Seq (Class (\<lambda>c. c = 0x2D))
         (Seq (Repeat 2 (Class isDigit))
           (Seq (Class (\<lambda>c. c = 0x2D))
             (Repeat 2 (Class isDigit)))))"

subsection \<open>Quote requests\<close>

text \<open>
  The interfaces \<^verbatim>\<open>ParsedLineItem\<close> and \<^verbatim>\<open>ParsedQuoteInput\<close>. The validator is
  written for data whose fields may be missing (it tests \<^verbatim>\<open>!data.contactName\<close>,
  \<^verbatim>\<open>!data.lineItems\<close>, \<^verbatim>\<open>!item.description\<close> and \<^verbatim>\<open>typeof item.quantity\<close>), so every
  field is optional in the model, also those the interface requires: \<open>None\<close> is a
  property that is \<^verbatim>\<open>undefined\<close>.
\<close>

record ParsedLineItem =
  description :: "jstring option"
  quantity :: "number option"
  unitAmount :: "number option"
  accountCode :: "jstring option"

record ParsedQuoteInput =
  contactName :: "jstring option"
  contactEmail :: "jstring option"
  lineItems :: "ParsedLineItem list option"
  reference :: "jstring option"
  termsAndConditions :: "jstring option"
  date :: "jstring option"

text \<open>
  Modelled from the spec: the interface \<^verbatim>\<open>QuoteData\<close> is declared in \<^verbatim>\<open>xero-client\<close>,
  which is not among the sources. The object that \<^verbatim>\<open>toQuoteData\<close> builds has exactly
  the properties of a \<^verbatim>\<open>ParsedQuoteInput\<close> (the specification describes it as the
  normalised request), so the same record stands for it.
\<close>

type_synonym QuoteData = ParsedQuoteInput

subsection \<open>\<^verbatim>\<open>validateQuoteData\<close>\<close>

record ValidationResult =
  valid :: bool
  errors :: "jstring list"

text \<open>\<^verbatim>\<open>!s || s.trim() === ''\<close>\<close>

definition isBlank :: "jstring option \<Rightarrow> bool" where
  "isBlank v = (case v of None \<Rightarrow> True | Some s \<Rightarrow> s = [] \<or> trim s = [])"

text \<open>\<^verbatim>\<open>typeof q !== 'number' || q <= 0\<close>\<close>

definition notPositive :: "number option \<Rightarrow> bool" where
  "notPositive v = (case v of None \<Rightarrow> True | Some q \<Rightarrow> nle q (Finite 0))"

text \<open>\<^verbatim>\<open>typeof u !== 'number' || u < 0\<close>\<close>

definition isNegative :: "number option \<Rightarrow> bool" where
  "isNegative v = (case v of None \<Rightarrow> True | Some u \<Rightarrow> nlt u (Finite 0))"

text \<open>The decimal digits of a non-negative integer, as a template literal prints it.\<close>

fun decimalString :: "nat \<Rightarrow> jstring" where
  "decimalString n =
     (if n < 10 then [0x30 + n] else decimalString (n div 10) @ [0x30 + n mod 10])"

declare decimalString.simps [simp del]

text \<open>
  The callback of \<^verbatim>\<open>data.lineItems.forEach\<close>: it receives the error list, the item and
  its index, and returns the error list after its three checks.
\<close>

definition checkLineItem :: "jstring list \<Rightarrow> ParsedLineItem \<Rightarrow> nat \<Rightarrow> jstring list" where
  "checkLineItem errs item index =
     (let errs =
            (if isBlank (description item)
             then errs @ [js ''Line item '' @ decimalString (index + 1)
                            @ js '': description is required'']
             else errs);
          errs =
            (if notPositive (quantity item)
             then errs @ [js ''Line item '' @ decimalString (index + 1)
                            @ js '': quantity must be a positive number'']
             else errs);
          errs =
            (if isNegative (unitAmount item)
             then errs @ [js ''Line item '' @ decimalString (index + 1)
                            @ js '': unit amount must be a non-negative number'']
             else errs)
      in errs)"

fun forEach ::
  "(jstring list \<Rightarrow> 'a \<Rightarrow> nat \<Rightarrow> jstring list) \<Rightarrow> 'a list \<Rightarrow> nat \<Rightarrow> jstring list \<Rightarrow> jstring list"
where
  "forEach f [] index errs = errs"
| "forEach f (x # xs) index errs = forEach f xs (index + 1) (f errs x index)"

definition validateQuoteData :: "ParsedQuoteInput \<Rightarrow> ValidationResult" where
  "validateQuoteData data =
     (let errs = [];
          errs =
            (if isBlank (contactName data) then errs @ [js ''Contact name is required'']
             else errs);
          errs =
            (case lineItems data of
               None \<Rightarrow> errs @ [js ''At least one line item is required'']
             | Some items \<Rightarrow>
                 if length items = 0 then errs @ [js ''At least one line item is required'']
                 else forEach checkLineItem items 0 errs);
          errs =
            (case contactEmail data of
               None \<Rightarrow> errs
             | Some email \<Rightarrow>
                 if email = [] then errs
                 else if \<not> test emailRegex email
                 then errs @ [js ''Invalid email address format'']
                 else errs);
          errs =
            (case date data of
               None \<Rightarrow> errs
             | Some d \<Rightarrow>
                 if d = [] then errs
                 else if \<not> test dateRegex d
                 then errs @ [js ''Date must be in YYYY-MM-DD format'']
                 else errs)
      in \<lparr> valid = (length errs = 0), errors = errs \<rparr>)"

subsection \<open>\<^verbatim>\<open>toQuoteData\<close>\<close>

text \<open>\<^verbatim>\<open>s || fallback\<close> for an optional string: the fallback replaces \<^verbatim>\<open>undefined\<close> and \<^verbatim>\<open>''\<close>.\<close>

definition orElse :: "jstring option \<Rightarrow> jstring \<Rightarrow> jstring" where
  "orElse v fallback =
     (case v of None \<Rightarrow> fallback | Some s \<Rightarrow> if s = [] then fallback else s)"

text \<open>
  The callback of \<^verbatim>\<open>input.lineItems.map\<close>. Calling \<^verbatim>\<open>trim\<close> on a description that is
  \<^verbatim>\<open>undefined\<close> throws.
\<close>

definition mapLineItem :: "ParsedLineItem \<Rightarrow> error + ParsedLineItem" where
  "mapLineItem item =
     (case description item of
        None \<Rightarrow> Inl TypeError
      | Some d \<Rightarrow>
          Inr \<lparr> description = Some (trim d),
                quantity = quantity item,
                unitAmount = unitAmount item,
                accountCode = Some (orElse (accountCode item) (js ''200'')) \<rparr>)"

fun mapLineItems :: "ParsedLineItem list \<Rightarrow> error + ParsedLineItem list" where
  "mapLineItems [] = Inr []"
| "mapLineItems (item # items) =
     (case mapLineItem item of
        Inl e \<Rightarrow> Inl e
      | Inr item' \<Rightarrow>
          (case mapLineItems items of
             Inl e \<Rightarrow> Inl e
           | Inr items' \<Rightarrow> Inr (item' # items')))"

text \<open>
  \<^verbatim>\<open>new Date()\<close> reads the clock. The instant read is a parameter of the model, given
  by its UTC fields; \<^verbatim>\<open>toISOString\<close> prints it as \<^verbatim>\<open>YYYY-MM-DDTHH:mm:ss.sssZ\<close>, the
  year with a sign and six digits when it is not between 0 and 9999.
\<close>

record DateTime =
  year :: int
  month :: nat
  day :: nat
  hours :: nat
  minutes :: nat
  seconds :: nat
  milliseconds :: nat

definition padStart :: "nat \<Rightarrow> nat \<Rightarrow> jstring" where
  "padStart width n =
     replicate (width - length (decimalString n)) 0x30 @ decimalString n"

definition isoDate :: "DateTime \<Rightarrow> jstring" where
  "isoDate t =
     (if 0 \<le> year t \<and> year t \<le> 9999 then padStart 4 (nat (year t))
      else (if year t < 0 then [0x2D] else [0x2B]) @ padStart 6 (nat \<bar>year t\<bar>))
     @ [0x2D] @ padStart 2 (month t) @ [0x2D] @ padStart 2 (day t)"

definition toISOString :: "DateTime \<Rightarrow> jstring" where
  "toISOString t =
     isoDate t @ [0x54] @ padStart 2 (hours t) @ [0x3A] @ padStart 2 (minutes t) @ [0x3A]
       @ padStart 2 (seconds t) @ [0x2E] @ padStart 3 (milliseconds t) @ [0x5A]"

text \<open>\<^verbatim>\<open>new Date().toISOString().split('T')[0]\<close>, for the instant \<open>now\<close> that is read.\<close>

definition today :: "DateTime \<Rightarrow> jstring" where
  "today now = (case split_str 0x54 (toISOString now) of [] \<Rightarrow> [] | p # ps \<Rightarrow> p)"

text \<open>
  The properties of the result are computed in the order of the object literal; the
  first \<^verbatim>\<open>trim\<close> or \<^verbatim>\<open>map\<close> called on \<^verbatim>\<open>undefined\<close> throws.
\<close>

definition toQuoteData :: "DateTime \<Rightarrow> ParsedQuoteInput \<Rightarrow> error + QuoteData" where
  "toQuoteData now input =
     (case contactName input of
        None \<Rightarrow> Inl TypeError
      | Some name \<Rightarrow>
          (case lineItems input of
             None \<Rightarrow> Inl TypeError
           | Some items \<Rightarrow>
               (case mapLineItems items of
                  Inl e \<Rightarrow> Inl e
                | Inr items' \<Rightarrow>
                    Inr \<lparr> contactName = Some (trim name),
                          contactEmail = map_option trim (contactEmail input),
                          lineItems = Some items',
                          reference = map_option trim (reference input),
                          termsAndConditions = map_option trim (termsAndConditions input),
                          date = Some (orElse (date input) (today now)) \<rparr>)))"

subsection \<open>\<^verbatim>\<open>calculateTotals\<close>\<close>

text \<open>
  A property that is \<^verbatim>\<open>undefined\<close> becomes NaN when \<^verbatim>\<open>*\<close> or \<^verbatim>\<open>+\<close> converts it to a
  number. \<^verbatim>\<open>reduce\<close> folds from the left, starting from \<open>0\<close>. The length of an array is
  an integer below \<open>2 ^ 32\<close> and is kept as a natural number.
\<close>

definition toNumber :: "number option \<Rightarrow> number" where
  "toNumber v = (case v of None \<Rightarrow> NaN | Some n \<Rightarrow> n)"

record Totals =
  subtotal :: number
  lineItemCount :: nat
  totalQuantity :: number

definition calculateTotals :: "ParsedLineItem list \<Rightarrow> Totals" where
  "calculateTotals items =
     \<lparr> subtotal =
         foldl (\<lambda>sum item. nadd sum (nmul (toNumber (quantity item)) (toNumber (unitAmount item))))
           (Finite 0) items,
       lineItemCount = length items,
       totalQuantity = foldl (\<lambda>sum item. nadd sum (toNumber (quantity item))) (Finite 0) items \<rparr>"

subsection \<open>Notions of the specification\<close>

text \<open>
  The \<^verbatim>\<open>local@domain.tld\<close> shape of an email address: three non-empty parts without
  white space or \<^verbatim>\<open>@\<close>, joined by \<^verbatim>\<open>@\<close> and by a dot.
\<close>

definition emailShape :: "jstring \<Rightarrow> bool" where
  "emailShape e \<longleftrightarrow>
     (\<exists>l d t. e = l @ [0x40] @ d @ [0x2E] @ t
        \<and> l \<noteq> [] \<and> d \<noteq> [] \<and> t \<noteq> []
        \<and> list_all notSpaceOrAt l \<and> list_all notSpaceOrAt d \<and> list_all notSpaceOrAt t)"

text \<open>The \<^verbatim>\<open>YYYY-MM-DD\<close> shape of a date: ten code units, digits but for the two hyphens.\<close>

definition dateShape :: "jstring \<Rightarrow> bool" where
  "dateShape d \<longleftrightarrow>
     length d = 10
     \<and> list_all isDigit (take 4 d) \<and> d ! 4 = 0x2D
     \<and> list_all isDigit (take 2 (drop 5 d)) \<and> d ! 7 = 0x2D
     \<and> list_all isDigit (drop 8 d)"

text \<open>
  The constraints of the data model on a line item and on a quote request: a non-blank
  description, a quantity that is a number above zero, a unit amount that is a number
  not below zero; a non-blank contact name, at least one line item, and an email and a
  date of the right shape when they are given.
\<close>

definition validLineItem :: "ParsedLineItem \<Rightarrow> bool" where
  "validLineItem item \<longleftrightarrow>
     (case description item of None \<Rightarrow> False | Some d \<Rightarrow> trim d \<noteq> [])
     \<and> (case quantity item of None \<Rightarrow> False | Some q \<Rightarrow> nlt (Finite 0) q)
     \<and> (case unitAmount item of None \<Rightarrow> False | Some u \<Rightarrow> nle (Finite 0) u)"

definition validRequest :: "ParsedQuoteInput \<Rightarrow> bool" where
  "validRequest r \<longleftrightarrow>
     (case contactName r of None \<Rightarrow> False | Some n \<Rightarrow> trim n \<noteq> [])
     \<and> (case lineItems r of None \<Rightarrow> False | Some items \<Rightarrow> items \<noteq> [] \<and> list_all validLineItem items)
     \<and> (case contactEmail r of None \<Rightarrow> True | Some e \<Rightarrow> emailShape e)
     \<and> (case date r of None \<Rightarrow> True | Some d \<Rightarrow> dateShape d)"

text \<open>
  A normalised request, in the words of the specification: every string is trimmed,
  every line item has an account code, and the date is present.
\<close>

definition trimmedOpt :: "jstring option \<Rightarrow> bool" where
  "trimmedOpt v = (case v of None \<Rightarrow> True | Some s \<Rightarrow> trim s = s)"

definition normalizedItem :: "ParsedLineItem \<Rightarrow> bool" where
  "normalizedItem item \<longleftrightarrow>
     (case description item of None \<Rightarrow> False | Some d \<Rightarrow> trim d = d)
     \<and> (case accountCode item of None \<Rightarrow> False | Some c \<Rightarrow> trim c = c)"

definition normalized :: "ParsedQuoteInput \<Rightarrow> bool" where
  "normalized r \<longleftrightarrow>
     (case contactName r of None \<Rightarrow> False | Some n \<Rightarrow> trim n = n)
     \<and> trimmedOpt (contactEmail r)
     \<and> (case lineItems r of None \<Rightarrow> False | Some items \<Rightarrow> list_all normalizedItem items)
     \<and> trimmedOpt (reference r)
     \<and> trimmedOpt (termsAndConditions r)
     \<and> (case date r of None \<Rightarrow> False | Some d \<Rightarrow> trim d = d)"

text \<open>
  A text begins with a number when, after an optional sign, it continues with
  \<^verbatim>\<open>Infinity\<close>, with a digit, or with a point and a digit.
\<close>

definition startsNumber :: "jstring \<Rightarrow> bool" where
  "startsNumber s \<longleftrightarrow>
     (let u = (case s of [] \<Rightarrow> [] | c # r \<Rightarrow> if c = 0x2B \<or> c = 0x2D then r else s)
      in take 8 u = js ''Infinity''
         \<or> (case u of
               [] \<Rightarrow> False
             | c # r \<Rightarrow>
                 isDigit c \<or> (c = 0x2E \<and> (case r of [] \<Rightarrow> False | d # r' \<Rightarrow> isDigit d))))"

text \<open>
  A text is a decimal number when all of it is an optional sign followed by digits with
  an optional fraction, or by a point and digits.
\<close>

definition decimalNumber :: regex where
  "decimalNumber =
     Seq (Alt Epsilon (Class (\<lambda>c. c = 0x2B \<or> c = 0x2D)))
       (Alt (Seq (Plus (Class isDigit))
               (Alt Epsilon (Seq (Class (\<lambda>c. c = 0x2E)) (Star (Class isDigit)))))
            (Seq (Class (\<lambda>c. c = 0x2E)) (Plus (Class isDigit))))"

text \<open>
  The code units that are currency symbols (Unicode general category \<^verbatim>\<open>Sc\<close>, in the
  basic multilingual plane).
\<close>

definition currencySymbol :: "jchar \<Rightarrow> bool" where
  "currencySymbol c \<longleftrightarrow>
     c = 0x24 \<or> (0xA2 \<le> c \<and> c \<le> 0xA5) \<or> c = 0x58F \<or> c = 0x60B \<or> c = 0x7FE \<or> c = 0x7FF
     \<or> c = 0x9F2 \<or> c = 0x9F3 \<or> c = 0x9FB \<or> c = 0xAF1 \<or> c = 0xBF9 \<or> c = 0xE3F
     \<or> c = 0x17DB \<or> (0x20A0 \<le> c \<and> c \<le> 0x20C0) \<or> c = 0xA838 \<or> c = 0xFDFC
     \<or> c = 0xFE69 \<or> c = 0xFF04 \<or> c = 0xFFE0 \<or> c = 0xFFE1 \<or> c = 0xFFE5 \<or> c = 0xFFE6"

text \<open>No line item carries the empty string as its account code.\<close>

definition nonEmptyCodes :: "ParsedQuoteInput \<Rightarrow> bool" where
  "nonEmptyCodes r =
     (case lineItems r of
        None \<Rightarrow> True
      | Some items \<Rightarrow> list_all (\<lambda>item. accountCode item \<noteq> Some []) items)"

text \<open>
  A line item whose quantity and unit amount are whole numbers, given with its
  description and account code.
\<close>

definition wholeItem :: "jstring option \<times> int \<times> int \<times> jstring option \<Rightarrow> ParsedLineItem" where
  "wholeItem p =
     (case p of (d, q, u, a) \<Rightarrow>
        \<lparr> description = d, quantity = Some (Finite (of_int q)),
          unitAmount = Some (Finite (of_int u)), accountCode = a \<rparr>)"

definition wholeQuantity :: "jstring option \<times> int \<times> int \<times> jstring option \<Rightarrow> int" where
  "wholeQuantity p = (case p of (d, q, u, a) \<Rightarrow> q)"

definition wholeLineTotal :: "jstring option \<times> int \<times> int \<times> jstring option \<Rightarrow> int" where
  "wholeLineTotal p = (case p of (d, q, u, a) \<Rightarrow> q * u)"

text \<open>
  A reading of the clock that is a day of the calendar with a year of four digits.
\<close>

definition calendarDay :: "DateTime \<Rightarrow> bool" where
  "calendarDay t \<longleftrightarrow>
     0 \<le> year t \<and> year t \<le> 9999 \<and> 1 \<le> month t \<and> month t \<le> 12 \<and> 1 \<le> day t \<and> day t \<le> 31"

subsection \<open>Sample requests\<close>

text \<open>
  The request of the end-to-end example: contact \<^verbatim>\<open>Acme Ltd\<close>, five units of
  \<^verbatim>\<open>Consulting\<close> at 150 and two of \<^verbatim>\<open>Travel\<close> at 75; no other property is set.
\<close>

definition lineItem :: "string \<Rightarrow> rat \<Rightarrow> rat \<Rightarrow> ParsedLineItem" where
  "lineItem d q u =
     \<lparr> description = Some (js d), quantity = Some (Finite q), unitAmount = Some (Finite u),
       accountCode = None \<rparr>"

definition acmeItems :: "ParsedLineItem list" where
  "acmeItems = [lineItem ''Consulting'' 5 150, lineItem ''Travel'' 2 75]"

definition acmeRequest :: ParsedQuoteInput where
  "acmeRequest =
     \<lparr> contactName = Some (js ''Acme Ltd''), contactEmail = None, lineItems = Some acmeItems,
       reference = None, termsAndConditions = None, date = None \<rparr>"

text \<open>The same request after \<^verbatim>\<open>toQuoteData\<close>, with a given date.\<close>

definition normalizedAcme :: "jstring \<Rightarrow> QuoteData" where
  "normalizedAcme d =
     \<lparr> contactName = Some (js ''Acme Ltd''), contactEmail = None,
       lineItems = Some
         [(lineItem ''Consulting'' 5 150) \<lparr> accountCode := Some (js ''200'') \<rparr>,
          (lineItem ''Travel'' 2 75) \<lparr> accountCode := Some (js ''200'') \<rparr>],
       reference = None, termsAndConditions = None, date = Some d \<rparr>"

text \<open>Two readings of the clock.\<close>

definition newYear :: DateTime where
  "newYear =
     \<lparr> year = 2026, month = 1, day = 1, hours = 0, minutes = 0, seconds = 0,
       milliseconds = 0 \<rparr>"

definition nextDay :: DateTime where
  "nextDay = newYear \<lparr> day := 2 \<rparr>"

text \<open>
  Three line items with the quantities \<^verbatim>\<open>0.1\<close>, \<^verbatim>\<open>0.2\<close> and \<^verbatim>\<open>0.3\<close> (a number
  literal denotes the binary64 value nearest to it) and the unit amount \<open>1\<close>.
\<close>

definition tenths :: "ParsedLineItem list" where
  "tenths =
     map (\<lambda>q. \<lparr> description = Some (js ''Cable''), quantity = Some (round_double q),
                unitAmount = Some (Finite 1), accountCode = None \<rparr>)
       [1 / 10, 2 / 10, 3 / 10]"

text \<open>The line items of the sample request, as whole numbers.\<close>

definition acmeWhole :: "(jstring option \<times> int \<times> int \<times> jstring option) list" where
  "acmeWhole =
     [(Some (js ''Consulting''), 5, 150, None), (Some (js ''Travel''), 2, 75, None)]"

section \<open>Properties\<close>

subsection \<open>Rounding to binary64\<close>

lemma pow2_powi: "pow2 e = 2 powi e"
  by (simp add: pow2_def power_int_def inverse_eq_divide power_one_over)

lemma pow2_pos: "0 < pow2 e"
  by (simp add: pow2_powi)

lemma pow2_add: "pow2 (a + b) = pow2 a * pow2 b"
  by (simp add: pow2_powi power_int_add)

lemma pow2_diff: "pow2 (a - b) = pow2 a / pow2 b"
  by (simp add: pow2_powi power_int_diff)

lemma pow2_less_iff: "pow2 a < pow2 b \<longleftrightarrow> a < b"
proof
  assume "pow2 a < pow2 b"
  show "a < b"
  proof (rule ccontr)
    assume "\<not> a < b"
    then have "b \<le> a" by simp
    then have "pow2 b \<le> pow2 a"
      unfolding pow2_powi by (intro power_int_increasing) simp_all
    with \<open>pow2 a < pow2 b\<close> show False by simp
  qed
next
  assume "a < b"
  then show "pow2 a < pow2 b"
    unfolding pow2_powi by (intro power_int_strict_increasing) simp_all
qed

lemma pow2_le_iff: "pow2 a \<le> pow2 b \<longleftrightarrow> a \<le> b"
  using pow2_less_iff [of b a] by (simp add: not_less [symmetric])

lemma pow2_nat: "pow2 (int n) = 2 ^ n"
  by (simp add: pow2_powi)

lemma bitlen_pow2_bounds:
  assumes "0 < p"
  shows "pow2 (bitlen p - 1) \<le> of_int p" and "of_int p < pow2 (bitlen p)"
proof -
  from assms have b: "1 \<le> bitlen p" by (simp add: bitlen_alt_def)
  have lo: "2 ^ nat (bitlen p - 1) \<le> p" and hi: "p < 2 ^ nat (bitlen p)"
    using bitlen_bounds [OF assms] by simp_all
  have "pow2 (bitlen p - 1) = of_int (2 ^ nat (bitlen p - 1))"
    using b by (simp add: pow2_def)
  also have "\<dots> \<le> of_int p" using lo by (simp only: of_int_le_iff)
  finally show "pow2 (bitlen p - 1) \<le> of_int p" .
  have "(of_int p :: rat) < of_int (2 ^ nat (bitlen p))"
    using hi by (simp only: of_int_less_iff)
  also have "\<dots> = pow2 (bitlen p)" using b by (simp add: pow2_def)
  finally show "of_int p < pow2 (bitlen p)" .
qed

lemma ilog2_bounds:
  assumes "x \<noteq> 0"
  shows "pow2 (ilog2 x) \<le> \<bar>x\<bar> \<and> \<bar>x\<bar> < pow2 (ilog2 x + 1)"
proof -
  obtain p q where pq: "quotient_of \<bar>x\<bar> = (p, q)" by (cases "quotient_of \<bar>x\<bar>")
  then have q: "0 < q" by (rule quotient_of_denom_pos)
  have x: "\<bar>x\<bar> = of_int p / of_int q" using pq by (rule quotient_of_div)
  from assms have "0 < \<bar>x\<bar>" by simp
  with x q have p: "0 < p" by (simp add: zero_less_divide_iff)
  let ?b = "bitlen p - bitlen q"
  have qpos: "(0::rat) < of_int q" using q by simp
  have "\<bar>x\<bar> < pow2 (bitlen p) / of_int q"
    unfolding x using bitlen_pow2_bounds(2) [OF p] qpos by (simp add: divide_strict_right_mono)
  also have "\<dots> \<le> pow2 (bitlen p) / pow2 (bitlen q - 1)"
    using bitlen_pow2_bounds(1) [OF q] pow2_pos [of "bitlen p"] pow2_pos [of "bitlen q - 1"]
    by (simp add: frac_le)
  also have "\<dots> = pow2 (bitlen p - (bitlen q - 1))"
    by (simp only: pow2_diff)
  also have "bitlen p - (bitlen q - 1) = ?b + 1" by simp
  finally have up: "\<bar>x\<bar> < pow2 (?b + 1)" .
  have "?b - 1 = bitlen p - 1 - bitlen q" by simp
  then have "pow2 (?b - 1) = pow2 (bitlen p - 1) / pow2 (bitlen q)"
    by (simp only: pow2_diff)
  also have "\<dots> \<le> of_int p / pow2 (bitlen q)"
    using bitlen_pow2_bounds(1) [OF p] pow2_pos [of "bitlen q"] by (simp add: divide_right_mono)
  also have "\<dots> \<le> of_int p / of_int q"
    using bitlen_pow2_bounds(2) [OF q] p qpos by (simp add: frac_le)
  finally have lo: "pow2 (?b - 1) \<le> \<bar>x\<bar>" by (simp add: x)
  show ?thesis
  proof (cases "pow2 ?b \<le> \<bar>x\<bar>")
    case True
    then have "ilog2 x = ?b" by (simp add: ilog2_def pq Let_def)
    with True up show ?thesis by simp
  next
    case False
    then have "ilog2 x = ?b - 1" by (simp add: ilog2_def pq Let_def)
    with False lo show ?thesis by simp
  qed
qed

lemma ilog2_eqI:
  assumes "pow2 e \<le> \<bar>x\<bar>" and "\<bar>x\<bar> < pow2 (e + 1)"
  shows "ilog2 x = e"
proof -
  from assms(1) pow2_pos [of e] have "x \<noteq> 0" by auto
  then have b: "pow2 (ilog2 x) \<le> \<bar>x\<bar>" "\<bar>x\<bar> < pow2 (ilog2 x + 1)"
    using ilog2_bounds by simp_all
  from assms(1) b(2) have "pow2 e < pow2 (ilog2 x + 1)" by simp
  then have "e < ilog2 x + 1" by (simp only: pow2_less_iff)
  moreover from b(1) assms(2) have "pow2 (ilog2 x) < pow2 (e + 1)" by simp
  then have "ilog2 x < e + 1" by (simp only: pow2_less_iff)
  ultimately show ?thesis by simp
qed

lemma roundTiesToEven_of_int: "roundTiesToEven (of_int m) = m"
  by (simp add: roundTiesToEven_def)


lemma round_double_exact:
  assumes x: "x = of_int m * pow2 k" and m: "\<bar>m\<bar> < 2 ^ 53" and k: "- 1074 \<le> k" "k \<le> 971"
  shows "round_double x = Finite x"
proof (cases "x = 0")
  case True
  then show ?thesis by (simp add: round_double_def)
next
  case False
  define e where "e = max (ilog2 x) (- 1022)"
  have absx: "\<bar>x\<bar> = of_int \<bar>m\<bar> * pow2 k"
    using pow2_pos [of k] by (simp add: x abs_mult)
  have "(of_int \<bar>m\<bar> :: rat) < of_int (2 ^ 53)"
    using m by (simp only: of_int_less_iff)
  then have mlt: "(of_int \<bar>m\<bar> :: rat) < pow2 53" by (simp add: pow2_def)
  then have xlt: "\<bar>x\<bar> < pow2 (53 + k)"
    unfolding absx pow2_add using pow2_pos [of k] by (simp add: mult_strict_right_mono)
  from ilog2_bounds [OF False] xlt have "pow2 (ilog2 x) < pow2 (53 + k)" by simp
  then have "ilog2 x < 53 + k" by (simp only: pow2_less_iff)
  with k have ek: "e - 52 \<le> k" by (simp add: e_def)
  define j where "j = nat (k - (e - 52))"
  have kj: "k = (e - 52) + int j" using ek by (simp add: j_def)
  have "x / pow2 (e - 52) = of_int m * pow2 (int j)"
    using pow2_pos [of "e - 52"] by (simp add: x kj pow2_add)
  also have "\<dots> = of_int (m * 2 ^ j)" by (simp add: pow2_nat)
  finally have "roundTiesToEven (x / pow2 (e - 52)) = m * 2 ^ j"
    by (simp only: roundTiesToEven_of_int)
  then have y: "of_int (roundTiesToEven (x / pow2 (e - 52))) * pow2 (e - 52) = x"
    by (simp add: x kj pow2_add pow2_nat)
  have "pow2 (53 + k) \<le> pow2 1024" using k by (simp only: pow2_le_iff)
  with xlt have "\<bar>x\<bar> < pow2 1024" by simp
  then have "\<not> pow2 1024 \<le> x" "\<not> x \<le> - pow2 1024" by (simp_all add: abs_less_iff)
  with False y show ?thesis
    by (simp add: round_double_def Let_def e_def [symmetric])
qed

lemma round_double_of_int:
  "\<bar>m\<bar> < 2 ^ 53 \<Longrightarrow> round_double (of_int m) = Finite (of_int m)"
  using round_double_exact [of "of_int m" m 0] by (simp add: pow2_def)

lemma round_double_nearest:
  assumes "pow2 e \<le> \<bar>x\<bar>" and "\<bar>x\<bar> < pow2 (e + 1)" and "- 1022 \<le> e"
    and "roundTiesToEven (x / pow2 (e - 52)) = m"
    and "\<bar>of_int m * pow2 (e - 52)\<bar> < pow2 1024"
  shows "round_double x = Finite (of_int m * pow2 (e - 52))"
proof -
  from assms(1) pow2_pos [of e] have "x \<noteq> 0" by auto
  moreover have "max (ilog2 x) (- 1022) = e"
    using ilog2_eqI [OF assms(1,2)] assms(3) by simp
  moreover from assms(5)
  have "\<not> pow2 1024 \<le> of_int m * pow2 (e - 52)" "\<not> of_int m * pow2 (e - 52) \<le> - pow2 1024"
    by (simp_all add: abs_less_iff)
  ultimately show ?thesis
    using assms(4) by (simp add: round_double_def Let_def)
qed

lemma floor_numeral_div:
  "\<lfloor>numeral a / numeral b :: rat\<rfloor> = numeral a div numeral b"
  using floor_divide_of_int_eq [of "numeral a" "numeral b", where ?'a = rat] by simp

text \<open>Evaluating \<open>parseFloat\<close> on a literal string.\<close>

lemmas parseFloat_eval =
  parseFloat_def js_def stripSign_def isWhiteSpace_def isDigit_def decimalValue_def
  exponentPart_def pow10_def trim_def infinity_def

subsection \<open>Numbers pass through the parsing helpers\<close>

lemma parseQuantity_minus_five_string:
  "parseQuantity (Str (js ''-5'')) = Inl (Error (js ''Invalid quantity: -5''))"
proof -
  have "parseFloat (trim (js ''-5'')) = Finite (- 5)"
    using round_double_of_int [of "- 5"] by (simp add: parseFloat_eval)
  moreover have "0x2F \<notin> set (js ''-5'')" by (simp add: js_def)
  ultimately show ?thesis by (simp add: parseQuantity_def isNaN_def js_def)
qed

text \<open>
  C10. An argument that is already a number is returned as it is by \<open>parseCurrency\<close> and
  by \<open>parseQuantity\<close>: no exception, and no check of its sign or range. So the number
  \<open>-5\<close> comes back from \<open>parseQuantity\<close>, while the string \<^verbatim>\<open>"-5"\<close> is rejected.
\<close>

theorem number_argument_returned_unchanged:
  "parseCurrency (Num n) = Inr n
   \<and> parseQuantity (Num n) = Inr n
   \<and> parseQuantity (Num (Finite (- 5))) = Inr (Finite (- 5))
   \<and> parseQuantity (Str (js ''-5'')) = Inl (Error (js ''Invalid quantity: -5''))"
proof -
  have "parseCurrency (Num n) = Inr n" by (simp add: parseCurrency_def)
  moreover have "\<And>m. parseQuantity (Num m) = Inr m" by (simp add: parseQuantity_def)
  ultimately show ?thesis using parseQuantity_minus_five_string by simp
qed

subsection \<open>Regular expressions\<close>

text \<open>\<open>test\<close> decides membership in the language of the expression.\<close>

lemma conc_Cons_iff:
  "c # w \<in> conc A B \<longleftrightarrow>
     (\<exists>u v. w = u @ v \<and> c # u \<in> A \<and> v \<in> B) \<or> ([] \<in> A \<and> c # w \<in> B)"
  unfolding conc_def by (auto simp: Cons_eq_append_conv)

lemma star_Cons_split:
  assumes "x \<in> star A" and "x = c # w"
  shows "\<exists>u v. w = u @ v \<and> c # u \<in> A \<and> v \<in> star A"
  using assms
proof (induction rule: star.induct)
  case star_nil
  then show ?case by simp
next
  case (star_app u v)
  show ?case
  proof (cases u)
    case Nil
    with star_app show ?thesis by simp
  next
    case (Cons a u')
    with star_app.prems have "a = c" "w = u' @ v" by simp_all
    with Cons star_app.hyps show ?thesis by blast
  qed
qed

lemma star_Cons_iff:
  "c # w \<in> star A \<longleftrightarrow> (\<exists>u v. w = u @ v \<and> c # u \<in> A \<and> v \<in> star A)"
proof
  assume "c # w \<in> star A"
  then show "\<exists>u v. w = u @ v \<and> c # u \<in> A \<and> v \<in> star A"
    by (rule star_Cons_split) simp
next
  assume "\<exists>u v. w = u @ v \<and> c # u \<in> A \<and> v \<in> star A"
  then obtain u v where "w = u @ v" "c # u \<in> A" "v \<in> star A" by blast
  then show "c # w \<in> star A" using star_app [of "c # u" A v] by simp
qed

lemma nullable_iff: "nullable r \<longleftrightarrow> [] \<in> lang r"
  by (induction r) (auto simp: conc_def intro: star_nil)

lemma lang_deriv: "w \<in> lang (deriv c r) \<longleftrightarrow> c # w \<in> lang r"
proof (induction r arbitrary: w)
  case (Seq r s)
  then show ?case
    by (auto simp: conc_Cons_iff nullable_iff) (auto simp: conc_def)
next
  case (Star r)
  then show ?case
    by (auto simp: star_Cons_iff conc_def)
qed auto

lemma test_iff_lang: "test r s \<longleftrightarrow> s \<in> lang r"
proof -
  have "nullable (foldl (\<lambda>r c. deriv c r) r s) \<longleftrightarrow> s \<in> lang r" for r
    by (induction s arbitrary: r) (simp_all add: nullable_iff lang_deriv)
  then show ?thesis by (simp add: test_def)
qed

lemma star_Class_iff: "w \<in> star {[c] | c. p c} \<longleftrightarrow> list_all p w"
proof
  assume "w \<in> star {[c] | c. p c}"
  then show "list_all p w" by (induction rule: star.induct) auto
next
  assume "list_all p w"
  then show "w \<in> star {[c] | c. p c}"
  proof (induction w)
    case Nil
    show ?case by (rule star_nil)
  next
    case (Cons a w)
    then have "[a] \<in> {[c] | c. p c}" "w \<in> star {[c] | c. p c}" by simp_all
    then have "[a] @ w \<in> star {[c] | c. p c}" by (rule star_app)
    then show ?case by simp
  qed
qed

lemma conc_Class_iff:
  "w \<in> conc (lang (Class p)) B \<longleftrightarrow> (\<exists>a t. w = a # t \<and> p a \<and> t \<in> B)"
proof
  assume "w \<in> conc (lang (Class p)) B"
  then show "\<exists>a t. w = a # t \<and> p a \<and> t \<in> B" by (auto simp: conc_def)
next
  assume "\<exists>a t. w = a # t \<and> p a \<and> t \<in> B"
  then obtain a t where "w = [a] @ t" "[a] \<in> lang (Class p)" "t \<in> B" by auto
  then show "w \<in> conc (lang (Class p)) B" unfolding conc_def by blast
qed

lemma lang_Seq_Class:
  "w \<in> lang (Seq (Class p) r) \<longleftrightarrow> w \<noteq> [] \<and> p (hd w) \<and> tl w \<in> lang r"
  unfolding lang.simps(5) conc_Class_iff by (cases w) auto

lemma lang_Plus_Class: "w \<in> lang (Plus (Class p)) \<longleftrightarrow> w \<noteq> [] \<and> list_all p w"
  unfolding Plus_def lang_Seq_Class by (cases w) (auto simp: star_Class_iff)

lemma lang_Repeat_Class: "w \<in> lang (Repeat n (Class p)) \<longleftrightarrow> length w = n \<and> list_all p w"
proof (induction n arbitrary: w)
  case 0
  show ?case by auto
next
  case (Suc n)
  show ?case unfolding Repeat.simps lang_Seq_Class by (cases w) (auto simp: Suc)
qed

lemma lang_Seq_Repeat_Class:
  "w \<in> lang (Seq (Repeat n (Class p)) r) \<longleftrightarrow>
     n \<le> length w \<and> list_all p (take n w) \<and> drop n w \<in> lang r"
proof
  assume "w \<in> lang (Seq (Repeat n (Class p)) r)"
  then obtain u v where "w = u @ v" "length u = n" "list_all p u" "v \<in> lang r"
    by (auto simp: conc_def lang_Repeat_Class)
  then show "n \<le> length w \<and> list_all p (take n w) \<and> drop n w \<in> lang r" by simp
next
  assume a: "n \<le> length w \<and> list_all p (take n w) \<and> drop n w \<in> lang r"
  then have "take n w \<in> lang (Repeat n (Class p))" by (simp add: lang_Repeat_Class)
  with a have "take n w @ drop n w \<in> conc (lang (Repeat n (Class p))) (lang r)"
    unfolding conc_def by blast
  then show "w \<in> lang (Seq (Repeat n (Class p)) r)" by simp
qed

lemma test_dateRegex: "test dateRegex d \<longleftrightarrow> dateShape d"
proof -
  have "d \<in> lang dateRegex \<longleftrightarrow>
          4 \<le> length d \<and> list_all isDigit (take 4 d)
          \<and> drop 4 d \<noteq> [] \<and> hd (drop 4 d) = 0x2D
          \<and> 2 \<le> length (tl (drop 4 d)) \<and> list_all isDigit (take 2 (tl (drop 4 d)))
          \<and> drop 2 (tl (drop 4 d)) \<noteq> [] \<and> hd (drop 2 (tl (drop 4 d))) = 0x2D
          \<and> length (tl (drop 2 (tl (drop 4 d)))) = 2
          \<and> list_all isDigit (tl (drop 2 (tl (drop 4 d))))"
    unfolding dateRegex_def lang_Seq_Repeat_Class lang_Seq_Class lang_Repeat_Class by blast
  also have "\<dots> \<longleftrightarrow> dateShape d"
    unfolding dateShape_def
    by (auto simp: hd_drop_conv_nth tl_drop drop_Suc [symmetric] simp del: drop_tl)
  finally show ?thesis by (simp add: test_iff_lang)
qed

lemma lang_Class_eq: "u \<in> lang (Class (\<lambda>c. c = k)) \<longleftrightarrow> u = [k]"
  by auto

lemma test_emailRegex: "test emailRegex e \<longleftrightarrow> emailShape e"
proof -
  have "e \<in> lang emailRegex \<longleftrightarrow> emailShape e"
    unfolding emailRegex_def emailShape_def lang.simps(5) conc_def
    by (simp add: lang_Plus_Class lang_Class_eq del: lang.simps) blast
  then show ?thesis by (simp add: test_iff_lang)
qed

subsection \<open>The validator\<close>

lemma nlt_imp_not_nle: "nlt a b \<Longrightarrow> \<not> nle b a"
  by (cases a; cases b) simp_all

lemma nle_imp_not_nlt: "nle a b \<Longrightarrow> \<not> nlt b a"
  by (cases a; cases b) simp_all

lemma trim_Nil [simp]: "trim [] = []"
  by (simp add: trim_def)

lemma checkLineItem_append:
  "checkLineItem errs item i = errs @ checkLineItem [] item i"
  by (simp add: checkLineItem_def Let_def)

lemma forEach_checkLineItem_Cons:
  "forEach checkLineItem (x # xs) i errs =
     errs @ checkLineItem [] x i @ forEach checkLineItem xs (i + 1) []"
proof (induction xs arbitrary: x i errs)
  case Nil
  show ?case using checkLineItem_append [of errs x i] by simp
next
  case (Cons y ys)
  have "forEach checkLineItem (x # y # ys) i errs =
          forEach checkLineItem (y # ys) (i + 1) (checkLineItem errs x i)" by simp
  also have "\<dots> = checkLineItem errs x i @ checkLineItem [] y (i + 1)
                     @ forEach checkLineItem ys (i + 1 + 1) []"
    by (rule Cons.IH)
  also have "\<dots> = errs @ checkLineItem [] x i @ forEach checkLineItem (y # ys) (i + 1) []"
    using checkLineItem_append [of errs x i] Cons.IH [of y "i + 1" "[]"] by simp
  finally show ?case .
qed

lemma forEach_checkLineItem_append:
  "forEach checkLineItem items i errs = errs @ forEach checkLineItem items i []"
  by (cases items) (simp_all add: forEach_checkLineItem_Cons del: forEach.simps(2))

text \<open>NaN has the type \<^verbatim>\<open>number\<close> and compares false with zero: neither check rejects it.\<close>

lemma NaN_passes_checks: "\<not> notPositive (Some NaN)" "\<not> isNegative (Some NaN)"
  by (simp_all add: notPositive_def isNegative_def)

lemma checkLineItem_valid: "validLineItem item \<Longrightarrow> checkLineItem [] item i = []"
  by (auto simp: validLineItem_def checkLineItem_def isBlank_def notPositive_def isNegative_def
      nlt_imp_not_nle nle_imp_not_nlt split: option.splits)

lemma forEach_valid:
  "list_all validLineItem items \<Longrightarrow> forEach checkLineItem items i [] = []"
  by (induction items arbitrary: i)
    (simp_all add: forEach_checkLineItem_Cons checkLineItem_valid del: forEach.simps(2))

lemma checkLineItem_prefix:
  "e \<in> set (checkLineItem [] item i) \<Longrightarrow> take 10 e = js ''Line item ''"
  by (auto simp: checkLineItem_def Let_def js_def split: if_splits)

lemma forEach_prefix:
  "e \<in> set (forEach checkLineItem items i []) \<Longrightarrow> take 10 e = js ''Line item ''"
proof (induction items arbitrary: i)
  case Nil
  then show ?case by simp
next
  case (Cons x xs)
  then show ?case
    by (auto simp: forEach_checkLineItem_Cons checkLineItem_prefix simp del: forEach.simps(2))
qed

lemma forEach_contains_item:
  "i < length items \<Longrightarrow>
     set (checkLineItem [] (items ! i) (start + i)) \<subseteq> set (forEach checkLineItem items start errs)"
proof (induction items arbitrary: i start errs)
  case Nil
  then show ?case by simp
next
  case (Cons x xs)
  show ?case
  proof (cases i)
    case 0
    then show ?thesis by (auto simp: forEach_checkLineItem_Cons simp del: forEach.simps(2))
  next
    case (Suc j)
    with Cons.prems have "j < length xs" by simp
    then have "set (checkLineItem [] (xs ! j) (start + 1 + j))
                 \<subseteq> set (forEach checkLineItem xs (start + 1) [])"
      by (rule Cons.IH)
    with Suc show ?thesis
      by (auto simp: forEach_checkLineItem_Cons simp del: forEach.simps(2))
  qed
qed

text \<open>The error list is the concatenation of what the four stages report.\<close>

lemma validate_errors:
  "errors (validateQuoteData r) =
     (if isBlank (contactName r) then [js ''Contact name is required''] else [])
     @ (case lineItems r of
          None \<Rightarrow> [js ''At least one line item is required'']
        | Some items \<Rightarrow>
            if items = [] then [js ''At least one line item is required'']
            else forEach checkLineItem items 0 [])
     @ (case contactEmail r of
          None \<Rightarrow> []
        | Some email \<Rightarrow>
            if email \<noteq> [] \<and> \<not> test emailRegex email then [js ''Invalid email address format'']
            else [])
     @ (case date r of
          None \<Rightarrow> []
        | Some d \<Rightarrow>
            if d \<noteq> [] \<and> \<not> test dateRegex d then [js ''Date must be in YYYY-MM-DD format'']
            else [])"
proof -
  have "forEach checkLineItem items 0 errs = errs @ forEach checkLineItem items 0 []"
    for items errs by (rule forEach_checkLineItem_append)
  note fe = this [of _ "[js ''Contact name is required'']"]
  show ?thesis
    unfolding validateQuoteData_def Let_def
    by (simp add: fe split: option.splits)
qed

lemma validate_contains_items:
  assumes "lineItems r = Some items" and "i < length items"
  shows "set (checkLineItem [] (items ! i) i) \<subseteq> set (errors (validateQuoteData r))"
proof -
  from assms(2) have ne: "items \<noteq> []" by auto
  have "set (checkLineItem [] (items ! i) (0 + i)) \<subseteq> set (forEach checkLineItem items 0 [])"
    using assms(2) by (rule forEach_contains_item)
  then show ?thesis
    using assms(1) ne by (auto simp: validate_errors)
qed

lemma valid_request_no_errors:
  assumes "validRequest r"
  shows "errors (validateQuoteData r) = []"
proof -
  from assms obtain n items where n: "contactName r = Some n" "trim n \<noteq> []"
    and items: "lineItems r = Some items" "items \<noteq> []" "list_all validLineItem items"
    by (auto simp: validRequest_def split: option.splits)
  from n have name: "\<not> isBlank (contactName r)" by (auto simp: isBlank_def)
  have email: "contactEmail r = Some e \<Longrightarrow> test emailRegex e" for e
    using assms by (simp add: validRequest_def test_emailRegex)
  have day: "date r = Some d \<Longrightarrow> test dateRegex d" for d
    using assms by (simp add: validRequest_def test_dateRegex)
  show ?thesis
    using name items email day
    by (simp add: validate_errors forEach_valid split: option.splits)
qed

lemma valid_iff_no_errors: "valid (validateQuoteData r) \<longleftrightarrow> errors (validateQuoteData r) = []"
  by (simp add: validateQuoteData_def Let_def)

lemma sample_email_shape: "emailShape (js ''ap@acme.example'')"
  unfolding emailShape_def
  apply (rule exI [of _ "js ''ap''"])
  apply (rule exI [of _ "js ''acme''"])
  apply (rule exI [of _ "js ''example''"])
  apply (simp add: js_def notSpaceOrAt_def isWhiteSpace_def)
  done

lemma acme_name_not_blank: "trim (js ''Acme Ltd'') \<noteq> []"
  by (simp add: trim_def js_def isWhiteSpace_def)

lemma acme_items_valid: "list_all validLineItem acmeItems"
  by (simp add: acmeItems_def lineItem_def validLineItem_def trim_def js_def isWhiteSpace_def)

text \<open>
  C1. A request that meets the constraints of the data model (a non-blank contact name,
  at least one line item, every line item with a non-blank description, a quantity
  above zero and a unit amount not below zero, an email of the \<^verbatim>\<open>local@domain.tld\<close>
  shape and a date of the \<^verbatim>\<open>YYYY-MM-DD\<close> shape when they are given) is valid, and the
  error list is empty.
\<close>

theorem valid_request_passes:
  assumes "validRequest r"
  shows "validateQuoteData r = \<lparr> valid = True, errors = [] \<rparr>"
proof -
  have e: "errors (validateQuoteData r) = []"
    using assms by (rule valid_request_no_errors)
  then have v: "valid (validateQuoteData r)"
    by (simp add: valid_iff_no_errors)
  obtain b es where res: "validateQuoteData r = \<lparr> valid = b, errors = es \<rparr>"
    by (cases "validateQuoteData r") simp
  with e v show ?thesis by simp
qed

theorem valid_request_passes_witness:
  "validRequest
     (acmeRequest \<lparr> contactEmail := Some (js ''ap@acme.example''),
                    date := Some (js ''2025-01-31'') \<rparr>)
   \<and> validateQuoteData
       (acmeRequest \<lparr> contactEmail := Some (js ''ap@acme.example''),
                      date := Some (js ''2025-01-31'') \<rparr>)
     = \<lparr> valid = True, errors = [] \<rparr>"
proof -
  have d: "dateShape (js ''2025-01-31'')"
    by (simp add: dateShape_def js_def isDigit_def)
  have "validRequest
     (acmeRequest \<lparr> contactEmail := Some (js ''ap@acme.example''),
                    date := Some (js ''2025-01-31'') \<rparr>)"
    using d sample_email_shape acme_name_not_blank acme_items_valid
    by (simp add: validRequest_def acmeRequest_def acmeItems_def)
  then show ?thesis using valid_request_passes by blast
qed

text \<open>
  C7. When the contact name is missing or blank, the message that names the missing
  contact name occurs exactly once in the error list, whatever the other fields are.
\<close>

theorem missing_contact_name_reported_once:
  assumes "contactName r = None \<or> (\<exists>s. contactName r = Some s \<and> trim s = [])"
  shows "count_list (errors (validateQuoteData r)) (js ''Contact name is required'') = 1"
proof -
  let ?m = "js ''Contact name is required''"
  from assms have blank: "isBlank (contactName r)" by (auto simp: isBlank_def)
  have "?m \<notin> set (forEach checkLineItem items 0 [])" for items
    using forEach_prefix [of ?m items 0] by (auto simp: js_def)
  then have items: "count_list (forEach checkLineItem items 0 []) ?m = 0" for items
    by (simp add: count_list_0_iff)
  have other: "js ''At least one line item is required'' \<noteq> ?m"
    "js ''Invalid email address format'' \<noteq> ?m"
    "js ''Date must be in YYYY-MM-DD format'' \<noteq> ?m"
    by (simp_all add: js_def)
  show ?thesis
    using blank items other
    by (simp add: validate_errors split: option.splits)
qed


theorem missing_contact_name_reported_once_witness:
  "contactName (acmeRequest \<lparr> contactName := Some (js ''  '') \<rparr>) = Some (js ''  '')
   \<and> trim (js ''  '') = []
   \<and> count_list (errors (validateQuoteData (acmeRequest \<lparr> contactName := Some (js ''  '') \<rparr>)))
       (js ''Contact name is required'') = 1"
proof -
  have t: "trim (js ''  '') = []" by (simp add: trim_def js_def isWhiteSpace_def)
  then have "\<exists>s. contactName (acmeRequest \<lparr> contactName := Some (js ''  '') \<rparr>) = Some s
                 \<and> trim s = []" by simp
  then show ?thesis
    using t missing_contact_name_reported_once
      [of "acmeRequest \<lparr> contactName := Some (js ''  '') \<rparr>"]
    by simp
qed

text \<open>
  For a line item at index \<open>i\<close> of the list (so at the 1-based position \<open>i + 1\<close>): a
  quantity that is \<^verbatim>\<open>undefined\<close>, or is \<open>\<le> 0\<close>, is reported with a message that carries
  the position \<open>i + 1\<close>. The three checks of an item do not depend on one another: a
  blank or missing description, a bad quantity and a bad unit amount are each reported,
  with the same position, whether or not the other two fail.
\<close>

lemma line_item_errors_indexed:
  assumes "lineItems r = Some items" and "i < length items"
  shows
    "((case description (items ! i) of None \<Rightarrow> True | Some d \<Rightarrow> trim d = []) \<longrightarrow>
        js ''Line item '' @ decimalString (i + 1) @ js '': description is required''
          \<in> set (errors (validateQuoteData r)))
     \<and> ((case quantity (items ! i) of None \<Rightarrow> True | Some q \<Rightarrow> nle q (Finite 0)) \<longrightarrow>
        js ''Line item '' @ decimalString (i + 1) @ js '': quantity must be a positive number''
          \<in> set (errors (validateQuoteData r)))
     \<and> ((case unitAmount (items ! i) of None \<Rightarrow> True | Some u \<Rightarrow> nlt u (Finite 0)) \<longrightarrow>
        js ''Line item '' @ decimalString (i + 1)
          @ js '': unit amount must be a non-negative number''
          \<in> set (errors (validateQuoteData r)))"
proof -
  let ?item = "items ! i"
  have sub: "set (checkLineItem [] ?item i) \<subseteq> set (errors (validateQuoteData r))"
    using assms by (rule validate_contains_items)
  have d: "isBlank (description ?item) \<Longrightarrow>
      js ''Line item '' @ decimalString (i + 1) @ js '': description is required''
        \<in> set (checkLineItem [] ?item i)"
    by (simp add: checkLineItem_def Let_def)
  have q: "notPositive (quantity ?item) \<Longrightarrow>
      js ''Line item '' @ decimalString (i + 1) @ js '': quantity must be a positive number''
        \<in> set (checkLineItem [] ?item i)"
    by (simp add: checkLineItem_def Let_def)
  have u: "isNegative (unitAmount ?item) \<Longrightarrow>
      js ''Line item '' @ decimalString (i + 1) @ js '': unit amount must be a non-negative number''
        \<in> set (checkLineItem [] ?item i)"
    by (simp add: checkLineItem_def Let_def)
  have d': "(case description ?item of None \<Rightarrow> True | Some d \<Rightarrow> trim d = []) \<Longrightarrow>
      isBlank (description ?item)"
    by (auto simp: isBlank_def split: option.splits)
  show ?thesis
    using sub d q u d' unfolding notPositive_def isNegative_def by blast
qed


lemma line_item_errors_indexed_sample:
  "lineItems (acmeRequest \<lparr> lineItems := Some
       [lineItem ''Consulting'' 5 150,
        \<lparr> description = Some (js '' ''), quantity = None, unitAmount = Some (Finite (- 1)),
          accountCode = None \<rparr>] \<rparr>)
     = Some [lineItem ''Consulting'' 5 150,
        \<lparr> description = Some (js '' ''), quantity = None, unitAmount = Some (Finite (- 1)),
          accountCode = None \<rparr>]
   \<and> js ''Line item 2: description is required''
       \<in> set (errors (validateQuoteData (acmeRequest \<lparr> lineItems := Some
            [lineItem ''Consulting'' 5 150,
             \<lparr> description = Some (js '' ''), quantity = None, unitAmount = Some (Finite (- 1)),
               accountCode = None \<rparr>] \<rparr>)))
   \<and> js ''Line item 2: quantity must be a positive number''
       \<in> set (errors (validateQuoteData (acmeRequest \<lparr> lineItems := Some
            [lineItem ''Consulting'' 5 150,
             \<lparr> description = Some (js '' ''), quantity = None, unitAmount = Some (Finite (- 1)),
               accountCode = None \<rparr>] \<rparr>)))
   \<and> js ''Line item 2: unit amount must be a non-negative number''
       \<in> set (errors (validateQuoteData (acmeRequest \<lparr> lineItems := Some
            [lineItem ''Consulting'' 5 150,
             \<lparr> description = Some (js '' ''), quantity = None, unitAmount = Some (Finite (- 1)),
               accountCode = None \<rparr>] \<rparr>)))"
proof -
  have t: "trim (js '' '') = []" by (simp add: trim_def js_def isWhiteSpace_def)
  have two: "decimalString (1 + 1) = js ''2''" by (simp add: decimalString.simps js_def)
  show ?thesis
    using t two line_item_errors_indexed
      [of "acmeRequest \<lparr> lineItems := Some
            [lineItem ''Consulting'' 5 150,
             \<lparr> description = Some (js '' ''), quantity = None, unitAmount = Some (Finite (- 1)),
               accountCode = None \<rparr>] \<rparr>"
          "[lineItem ''Consulting'' 5 150,
             \<lparr> description = Some (js '' ''), quantity = None, unitAmount = Some (Finite (- 1)),
               accountCode = None \<rparr>]" 1]
    by (simp add: js_def)
qed

lemma parseQuantity_infinity_quotient:
  "parseQuantity (Str (js ''Infinity/Infinity'')) = Inr NaN"
proof -
  have sp: "split_str 0x2F (js ''Infinity/Infinity'') = [js ''Infinity'', js ''Infinity'']"
    by (simp add: js_def)
  have pf: "parseFloat (trim (js ''Infinity'')) = PosInfinity"
    by (simp add: parseFloat_eval)
  have "0x2F \<in> set (js ''Infinity/Infinity'')" by (simp add: js_def)
  then show ?thesis by (simp add: parseQuantity_def sp pf isNaN_def)
qed

text \<open>
  C8. A quantity that is NaN is not a number and is not above zero, and \<open>parseQuantity\<close>
  can return it. The validator tests \<^verbatim>\<open>typeof item.quantity !== 'number'\<close> and
  \<^verbatim>\<open>item.quantity <= 0\<close>, which are both false for NaN: the request is valid and no
  message is reported for the item.
\<close>

theorem nan_quantity_not_reported:
  "parseQuantity (Str (js ''Infinity/Infinity'')) = Inr NaN
   \<and> \<not> nlt (Finite 0) NaN
   \<and> validateQuoteData
       (acmeRequest \<lparr> lineItems := Some [(lineItem ''Consulting'' 5 150) \<lparr> quantity := Some NaN \<rparr>] \<rparr>)
     = \<lparr> valid = True, errors = [] \<rparr>"
proof -
  have "checkLineItem [] ((lineItem ''Consulting'' 5 150) \<lparr> quantity := Some NaN \<rparr>) 0 = []"
    by (simp add: checkLineItem_def lineItem_def isBlank_def notPositive_def isNegative_def
        trim_def js_def isWhiteSpace_def)
  then have "errors (validateQuoteData
       (acmeRequest \<lparr> lineItems := Some [(lineItem ''Consulting'' 5 150) \<lparr> quantity := Some NaN \<rparr>] \<rparr>))
     = []"
    using acme_name_not_blank
    by (auto simp: validate_errors acmeRequest_def isBlank_def forEach_checkLineItem_Cons
        simp del: forEach.simps(2))
  then have "validateQuoteData
       (acmeRequest \<lparr> lineItems := Some [(lineItem ''Consulting'' 5 150) \<lparr> quantity := Some NaN \<rparr>] \<rparr>)
     = \<lparr> valid = True, errors = [] \<rparr>"
    using valid_iff_no_errors
      [of "acmeRequest \<lparr> lineItems := Some [(lineItem ''Consulting'' 5 150) \<lparr> quantity := Some NaN \<rparr>] \<rparr>"]
    by (cases "validateQuoteData
       (acmeRequest \<lparr> lineItems := Some [(lineItem ''Consulting'' 5 150) \<lparr> quantity := Some NaN \<rparr>] \<rparr>)")
      simp
  with parseQuantity_infinity_quotient show ?thesis by simp
qed

text \<open>
  C9, as amended. For a request whose date is a non-empty string, the validator reports
  a date error exactly when the date does not have the shape of four digits, a hyphen,
  two digits, a hyphen and two digits; the calendar is not consulted, so
  \<^verbatim>\<open>2025-13-99\<close> produces no date error.
\<close>

theorem date_checked_by_shape_only:
  assumes "date r = Some d" and "d \<noteq> []"
  shows "(js ''Date must be in YYYY-MM-DD format'' \<in> set (errors (validateQuoteData r))
            \<longleftrightarrow> \<not> dateShape d)
         \<and> (d = js ''2025-13-99'' \<longrightarrow>
              js ''Date must be in YYYY-MM-DD format'' \<notin> set (errors (validateQuoteData r)))"
proof -
  let ?m = "js ''Date must be in YYYY-MM-DD format''"
  have items: "?m \<notin> set (forEach checkLineItem items 0 [])" for items
    using forEach_prefix [of ?m items 0] by (auto simp: js_def)
  have other: "js ''At least one line item is required'' \<noteq> ?m"
    "js ''Invalid email address format'' \<noteq> ?m"
    "js ''Contact name is required'' \<noteq> ?m"
    by (simp_all add: js_def)
  have iff: "?m \<in> set (errors (validateQuoteData r)) \<longleftrightarrow> \<not> dateShape d"
    using assms items other
    by (simp add: validate_errors test_dateRegex split: option.splits)
  have "dateShape (js ''2025-13-99'')"
    by (simp add: dateShape_def js_def isDigit_def)
  with iff show ?thesis by simp
qed

theorem date_checked_by_shape_only_witness:
  "date (acmeRequest \<lparr> date := Some (js ''2025-13-99'') \<rparr>) = Some (js ''2025-13-99'')
   \<and> js ''2025-13-99'' \<noteq> []
   \<and> js ''Date must be in YYYY-MM-DD format''
       \<notin> set (errors (validateQuoteData (acmeRequest \<lparr> date := Some (js ''2025-13-99'') \<rparr>)))"
proof -
  have ne: "js ''2025-13-99'' \<noteq> []" by (simp add: js_def)
  show ?thesis
    using ne date_checked_by_shape_only
      [of "acmeRequest \<lparr> date := Some (js ''2025-13-99'') \<rparr>" "js ''2025-13-99''"]
    by (simp del: set_append) blast
qed

text \<open>
  The claim C9 as it is stated also covers a date that is present and empty. The
  validator skips the check for it (\<^verbatim>\<open>if (data.date)\<close>): the empty string does not have
  the shape, and no date error is reported.
\<close>

theorem empty_date_not_checked:
  "date (acmeRequest \<lparr> date := Some [] \<rparr>) = Some []
   \<and> \<not> dateShape []
   \<and> js ''Date must be in YYYY-MM-DD format''
       \<notin> set (errors (validateQuoteData (acmeRequest \<lparr> date := Some [] \<rparr>)))"
proof -
  have "validRequest acmeRequest"
    using acme_name_not_blank acme_items_valid
    by (simp add: validRequest_def acmeRequest_def acmeItems_def)
  then have "errors (validateQuoteData acmeRequest) = []"
    by (rule valid_request_no_errors)
  moreover have "errors (validateQuoteData (acmeRequest \<lparr> date := Some [] \<rparr>))
                   = errors (validateQuoteData acmeRequest)"
    by (simp add: validate_errors acmeRequest_def)
  ultimately show ?thesis by (simp add: dateShape_def)
qed

subsection \<open>Normalising a request\<close>

lemma decimalString_digits: "c \<in> set (decimalString n) \<Longrightarrow> isDigit c"
proof (induction n rule: decimalString.induct)
  case (1 n)
  show ?case
  proof (cases "n < 10")
    case True
    with "1.prems" show ?thesis by (simp add: decimalString.simps [of n] isDigit_def)
  next
    case False
    have "n mod 10 < 10" by simp
    then have "isDigit (0x30 + n mod 10)" unfolding isDigit_def by linarith
    with False "1.prems" "1.IH" show ?thesis
      by (auto simp: decimalString.simps [of n])
  qed
qed

lemma decimalString_not_Nil: "decimalString n \<noteq> []"
  by (simp add: decimalString.simps [of n])

lemma padStart_digits: "c \<in> set (padStart w n) \<Longrightarrow> isDigit c"
proof -
  have "isDigit 0x30" by (simp add: isDigit_def)
  then show "c \<in> set (padStart w n) \<Longrightarrow> isDigit c"
    by (auto simp: padStart_def decimalString_digits)
qed

lemma padStart_not_Nil: "padStart w n \<noteq> []"
  by (simp add: padStart_def decimalString_not_Nil)

lemma isoDate_no_T: "0x54 \<notin> set (isoDate t)"
proof -
  have "\<not> isDigit 0x54" by (simp add: isDigit_def)
  then have "0x54 \<notin> set (padStart w n)" for w n using padStart_digits by blast
  then show ?thesis by (simp add: isoDate_def)
qed

lemma isoDate_not_Nil: "isoDate t \<noteq> []"
  by (simp add: isoDate_def padStart_not_Nil)

lemma split_str_first:
  "sep \<notin> set a \<Longrightarrow> split_str sep (a @ sep # b) = a # split_str sep b"
  by (induction a) auto

lemma today_isoDate: "today now = isoDate now"
  using split_str_first [OF isoDate_no_T, of now]
  by (simp add: today_def toISOString_def)

lemma dropWhile_rev_dropWhile:
  "dropWhile P (rev (dropWhile P (rev (dropWhile P s)))) = rev (dropWhile P (rev (dropWhile P s)))"
proof -
  let ?u = "dropWhile P s"
  let ?v = "dropWhile P (rev ?u)"
  show ?thesis
  proof (cases "?v = []")
    case True
    show ?thesis unfolding True by simp
  next
    case False
    have u: "?u \<noteq> []"
    proof
      assume e: "?u = []"
      have "?v = []" unfolding e by simp
      with False show False by contradiction
    qed
    then have "\<not> P (hd ?u)" by (rule hd_dropWhile)
    moreover have "hd (rev ?v) = last ?v" using False by (simp add: hd_rev)
    moreover have "last ?v = last (rev ?u)"
      using False by (simp add: dropWhile_eq_drop)
    moreover have "last (rev ?u) = hd ?u" using u by (simp add: last_rev)
    ultimately have "\<not> P (hd (rev ?v))" by simp
    then show ?thesis by (simp add: dropWhile_eq_self_iff)
  qed
qed

lemma trim_idem: "trim (trim s) = trim s"
  by (simp add: trim_def dropWhile_rev_dropWhile)

lemma orElse_idem: "fallback \<noteq> [] \<Longrightarrow> orElse (Some (orElse v fallback)) other = orElse v fallback"
  by (simp add: orElse_def split: option.splits)

lemma orElse_Some: "s \<noteq> [] \<Longrightarrow> orElse (Some s) other = s"
  by (simp add: orElse_def)

lemma default_code_not_Nil: "js ''200'' \<noteq> []"
  by (simp add: js_def)

lemma mapLineItem_idem: "mapLineItem item = Inr item' \<Longrightarrow> mapLineItem item' = Inr item'"
  by (auto simp: mapLineItem_def trim_idem orElse_idem default_code_not_Nil split: option.splits)

lemma mapLineItems_idem: "mapLineItems items = Inr items' \<Longrightarrow> mapLineItems items' = Inr items'"
proof (induction items arbitrary: items')
  case Nil
  then show ?case by simp
next
  case (Cons item items)
  then show ?case
    by (auto simp: mapLineItem_idem split: sum.splits)
qed

lemma mapLineItem_normalized:
  "normalizedItem item \<Longrightarrow> accountCode item \<noteq> Some [] \<Longrightarrow> mapLineItem item = Inr item"
  by (cases item) (auto simp: normalizedItem_def mapLineItem_def orElse_def split: option.splits)

lemma mapLineItems_normalized:
  "list_all normalizedItem items \<Longrightarrow> \<forall>item \<in> set items. accountCode item \<noteq> Some [] \<Longrightarrow>
     mapLineItems items = Inr items"
  by (induction items) (simp_all add: mapLineItem_normalized)

lemma toQuoteData_again:
  assumes "toQuoteData now r = Inr q" and "date r = Some d"
  shows "toQuoteData later q = Inr q"
proof -
  from assms(1) obtain name items items' where
    name: "contactName r = Some name" and items: "lineItems r = Some items"
    and map: "mapLineItems items = Inr items'"
    and q: "q = \<lparr> contactName = Some (trim name),
                  contactEmail = map_option trim (contactEmail r),
                  lineItems = Some items',
                  reference = map_option trim (reference r),
                  termsAndConditions = map_option trim (termsAndConditions r),
                  date = Some (orElse (date r) (today now)) \<rparr>"
    by (auto simp: toQuoteData_def split: option.splits sum.splits)
  have "orElse (date r) (today now) \<noteq> []"
    using assms(2) isoDate_not_Nil [of now] by (simp add: orElse_def today_isoDate)
  then have day: "orElse (Some (orElse (date r) (today now))) (today later)
                    = orElse (date r) (today now)"
    by (rule orElse_Some)
  have opt: "map_option trim (map_option trim v) = map_option trim v" for v
    by (cases v) (simp_all add: trim_idem)
  show ?thesis
    using mapLineItems_idem [OF map] day
    by (simp add: q toQuoteData_def trim_idem opt)
qed

text \<open>
  C6, as amended. Applying \<open>toQuoteData\<close> to its own result changes nothing, for every
  request that has a date and whatever the clock shows at the second call. A request
  that is normalised (every string trimmed, an account code on every line item, a date)
  is returned as it is, provided that no account code and not the date is the empty
  string.
\<close>

theorem toQuoteData_idempotent:
  assumes "date r = Some d"
  shows "(case toQuoteData now r of Inl e \<Rightarrow> Inl e | Inr q \<Rightarrow> toQuoteData later q)
           = toQuoteData now r
         \<and> (normalized r \<and> nonEmptyCodes r \<and> d \<noteq> [] \<longrightarrow> toQuoteData now r = Inr r)"
proof -
  have idem: "(case toQuoteData now r of Inl e \<Rightarrow> Inl e | Inr q \<Rightarrow> toQuoteData later q)
                = toQuoteData now r"
    using toQuoteData_again [OF _ assms] by (cases "toQuoteData now r") simp_all
  have fixpoint: "toQuoteData now r = Inr r"
    if n: "normalized r" and c: "nonEmptyCodes r" and d: "d \<noteq> []"
  proof -
    from n obtain name items where name: "contactName r = Some name" "trim name = name"
      and items: "lineItems r = Some items" "list_all normalizedItem items"
      by (auto simp: normalized_def split: option.splits)
    from c items have "mapLineItems items = Inr items"
      by (intro mapLineItems_normalized) (simp_all add: nonEmptyCodes_def list_all_iff)
    moreover have "map_option trim v = v" if "trimmedOpt v" for v
      using that by (cases v) (simp_all add: trimmedOpt_def)
    moreover from n have "trimmedOpt (contactEmail r)" "trimmedOpt (reference r)"
      "trimmedOpt (termsAndConditions r)" by (simp_all add: normalized_def)
    ultimately show ?thesis
      using name items assms d by (cases r) (simp add: toQuoteData_def orElse_def)
  qed
  from idem fixpoint show ?thesis by blast
qed

subsection \<open>Totals\<close>

lemma round_double_numeral:
  "(numeral n :: int) < 2 ^ 53 \<Longrightarrow> round_double (numeral n) = Finite (numeral n)"
  using round_double_of_int [of "numeral n"] by simp

lemma nadd_whole:
  "\<bar>a + v\<bar> < 2 ^ 53 \<Longrightarrow>
     nadd (Finite (of_int a)) (Finite (of_int v)) = Finite (of_int (a + v))"
  using round_double_of_int [of "a + v"] by simp

lemma nmul_whole:
  "\<bar>q * u\<bar> < 2 ^ 53 \<Longrightarrow>
     nmul (Finite (of_int q)) (Finite (of_int u)) = Finite (of_int (q * u))"
  using round_double_of_int [of "q * u"] by simp

lemma wholeItem_fields:
  "quantity (wholeItem (d, q, u, c)) = Some (Finite (of_int q))"
  "unitAmount (wholeItem (d, q, u, c)) = Some (Finite (of_int u))"
  by (simp_all add: wholeItem_def)

lemma quantity_sum_exact:
  "\<bar>a\<bar> + (\<Sum>p\<leftarrow>ps. \<bar>wholeQuantity p\<bar>) < 2 ^ 53 \<Longrightarrow>
     foldl (\<lambda>sum item. nadd sum (toNumber (quantity item))) (Finite (of_int a))
       (map wholeItem ps)
     = Finite (of_int (a + (\<Sum>p\<leftarrow>ps. wholeQuantity p)))"
proof (induction ps arbitrary: a)
  case Nil
  show ?case by simp
next
  case (Cons p ps)
  obtain d q u c where p: "p = (d, q, u, c)" by (cases p)
  have le: "\<bar>a + q\<bar> \<le> \<bar>a\<bar> + \<bar>q\<bar>" by (rule abs_triangle_ineq)
  have nn: "0 \<le> (\<Sum>p\<leftarrow>ps. \<bar>wholeQuantity p\<bar>)" by (rule sum_list_nonneg) auto
  from Cons.prems have b: "\<bar>a\<bar> + \<bar>q\<bar> + (\<Sum>p\<leftarrow>ps. \<bar>wholeQuantity p\<bar>) < 2 ^ 53"
    by (simp add: p wholeQuantity_def)
  with le nn have step: "\<bar>a + q\<bar> < 2 ^ 53" by linarith
  from b le have "\<bar>a + q\<bar> + (\<Sum>p\<leftarrow>ps. \<bar>wholeQuantity p\<bar>) < 2 ^ 53" by linarith
  then have "foldl (\<lambda>sum item. nadd sum (toNumber (quantity item))) (Finite (of_int (a + q)))
       (map wholeItem ps)
     = Finite (of_int (a + q + (\<Sum>p\<leftarrow>ps. wholeQuantity p)))"
    by (rule Cons.IH)
  then show ?case
    using nadd_whole [OF step]
    by (simp add: p wholeItem_fields wholeQuantity_def toNumber_def add.assoc)
qed

lemma subtotal_exact:
  "\<bar>a\<bar> + (\<Sum>p\<leftarrow>ps. \<bar>wholeLineTotal p\<bar>) < 2 ^ 53 \<Longrightarrow>
     foldl (\<lambda>sum item. nadd sum (nmul (toNumber (quantity item)) (toNumber (unitAmount item))))
       (Finite (of_int a)) (map wholeItem ps)
     = Finite (of_int (a + (\<Sum>p\<leftarrow>ps. wholeLineTotal p)))"
proof (induction ps arbitrary: a)
  case Nil
  show ?case by simp
next
  case (Cons p ps)
  obtain d q u c where p: "p = (d, q, u, c)" by (cases p)
  have le: "\<bar>a + q * u\<bar> \<le> \<bar>a\<bar> + \<bar>q * u\<bar>" by (rule abs_triangle_ineq)
  have nn: "0 \<le> (\<Sum>p\<leftarrow>ps. \<bar>wholeLineTotal p\<bar>)" by (rule sum_list_nonneg) auto
  from Cons.prems have b: "\<bar>a\<bar> + \<bar>q * u\<bar> + (\<Sum>p\<leftarrow>ps. \<bar>wholeLineTotal p\<bar>) < 2 ^ 53"
    by (simp add: p wholeLineTotal_def)
  with le nn have step: "\<bar>a + q * u\<bar> < 2 ^ 53" by linarith
  from b nn have prod: "\<bar>q * u\<bar> < 2 ^ 53" by linarith
  from b le have "\<bar>a + q * u\<bar> + (\<Sum>p\<leftarrow>ps. \<bar>wholeLineTotal p\<bar>) < 2 ^ 53" by linarith
  then have "foldl (\<lambda>sum item. nadd sum (nmul (toNumber (quantity item)) (toNumber (unitAmount item))))
       (Finite (of_int (a + q * u))) (map wholeItem ps)
     = Finite (of_int (a + q * u + (\<Sum>p\<leftarrow>ps. wholeLineTotal p)))"
    by (rule Cons.IH)
  then show ?case
    using nadd_whole [OF step] nmul_whole [OF prod]
    by (simp add: p wholeItem_fields wholeLineTotal_def toNumber_def add.assoc)
qed

lemma sum_list_map_mset:
  fixes f :: "'a \<Rightarrow> int"
  assumes "mset xs = mset ys"
  shows "(\<Sum>x\<leftarrow>xs. f x) = (\<Sum>y\<leftarrow>ys. f y)"
proof -
  have "(\<Sum>x\<leftarrow>xs. f x) = sum_mset (image_mset f (mset xs))"
    by (simp flip: sum_mset_sum_list)
  also have "\<dots> = sum_mset (image_mset f (mset ys))" by (simp only: assms)
  also have "\<dots> = (\<Sum>y\<leftarrow>ys. f y)" by (simp flip: sum_mset_sum_list)
  finally show ?thesis .
qed

lemma totals_whole:
  assumes "(\<Sum>p\<leftarrow>ps. \<bar>wholeLineTotal p\<bar>) < 2 ^ 53" and "(\<Sum>p\<leftarrow>ps. \<bar>wholeQuantity p\<bar>) < 2 ^ 53"
  shows "calculateTotals (map wholeItem ps) =
           \<lparr> subtotal = Finite (of_int (\<Sum>p\<leftarrow>ps. wholeLineTotal p)),
             lineItemCount = length ps,
             totalQuantity = Finite (of_int (\<Sum>p\<leftarrow>ps. wholeQuantity p)) \<rparr>"
  using subtotal_exact [of 0 ps] quantity_sum_exact [of 0 ps] assms
  by (simp add: calculateTotals_def)

text \<open>
  C5, as amended. The number of line items does not depend on their order. When the
  quantities and unit amounts are whole numbers, and the absolute line totals and the
  absolute quantities each add up to less than \<open>2 ^ 53\<close>, every addition and
  multiplication is exact and the three totals are the same for every permutation of
  the line items.
\<close>

theorem totals_permutation_whole_numbers:
  "(mset ys = mset xs \<longrightarrow>
      lineItemCount (calculateTotals ys) = lineItemCount (calculateTotals xs))
   \<and> (mset zs = mset (map wholeItem ps)
        \<and> (\<Sum>p\<leftarrow>ps. \<bar>wholeLineTotal p\<bar>) < 2 ^ 53
        \<and> (\<Sum>p\<leftarrow>ps. \<bar>wholeQuantity p\<bar>) < 2 ^ 53 \<longrightarrow>
      calculateTotals zs = calculateTotals (map wholeItem ps))"
proof -
  have count: "lineItemCount (calculateTotals ys) = lineItemCount (calculateTotals xs)"
    if "mset ys = mset xs"
    using mset_eq_length [OF that] by (simp add: calculateTotals_def)
  have whole: "calculateTotals zs = calculateTotals (map wholeItem ps)"
    if z: "mset zs = mset (map wholeItem ps)"
      and t: "(\<Sum>p\<leftarrow>ps. \<bar>wholeLineTotal p\<bar>) < 2 ^ 53"
      and q: "(\<Sum>p\<leftarrow>ps. \<bar>wholeQuantity p\<bar>) < 2 ^ 53"
  proof -
    have "list_all2 (\<lambda>item p. item = wholeItem p) (map wholeItem ps) ps"
      by (simp add: list_all2_conv_all_nth)
    from list_all2_reorder_left_invariance [OF this z]
    obtain qs where qs: "list_all2 (\<lambda>item p. item = wholeItem p) zs qs" "mset qs = mset ps"
      by blast
    from qs(1) have zs: "zs = map wholeItem qs"
      by (induction rule: list_all2_induct) simp_all
    have "calculateTotals (map wholeItem qs) =
           \<lparr> subtotal = Finite (of_int (\<Sum>p\<leftarrow>qs. wholeLineTotal p)),
             lineItemCount = length qs,
             totalQuantity = Finite (of_int (\<Sum>p\<leftarrow>qs. wholeQuantity p)) \<rparr>"
      using t q sum_list_map_mset [OF qs(2), of "\<lambda>p. \<bar>wholeLineTotal p\<bar>"]
        sum_list_map_mset [OF qs(2), of "\<lambda>p. \<bar>wholeQuantity p\<bar>"]
      by (intro totals_whole) simp_all
    also have "\<dots> = calculateTotals (map wholeItem ps)"
      using t q sum_list_map_mset [OF qs(2), of wholeLineTotal]
        sum_list_map_mset [OF qs(2), of wholeQuantity] mset_eq_length [OF qs(2)]
      by (simp add: totals_whole)
    finally show ?thesis by (simp add: zs)
  qed
  from count whole show ?thesis by blast
qed

lemma double_tenth: "round_double (1 / 10) = Finite (3602879701896397 / 36028797018963968)"
  using round_double_nearest [of "- 4" "1 / 10" 7205759403792794]
  by (simp add: pow2_def roundTiesToEven_def Let_def floor_numeral_div)

lemma double_fifth: "round_double (1 / 5) = Finite (3602879701896397 / 18014398509481984)"
  using round_double_nearest [of "- 3" "1 / 5" 7205759403792794]
  by (simp add: pow2_def roundTiesToEven_def Let_def floor_numeral_div)

lemma double_three_tenths:
  "round_double (3 / 10) = Finite (5404319552844595 / 18014398509481984)"
  using round_double_nearest [of "- 2" "3 / 10" 5404319552844595]
  by (simp add: pow2_def roundTiesToEven_def Let_def floor_numeral_div)

lemma double_exact_tenth:
  "round_double (3602879701896397 / 36028797018963968)
     = Finite (3602879701896397 / 36028797018963968)"
  using round_double_exact [of "3602879701896397 / 36028797018963968" 3602879701896397 "- 55"]
  by (simp add: pow2_def)

lemma double_exact_fifth:
  "round_double (3602879701896397 / 18014398509481984)
     = Finite (3602879701896397 / 18014398509481984)"
  using round_double_exact [of "3602879701896397 / 18014398509481984" 3602879701896397 "- 54"]
  by (simp add: pow2_def)

lemma double_exact_three_tenths:
  "round_double (5404319552844595 / 18014398509481984)
     = Finite (5404319552844595 / 18014398509481984)"
  using round_double_exact [of "5404319552844595 / 18014398509481984" 5404319552844595 "- 54"]
  by (simp add: pow2_def)

lemma sum_tenth_fifth:
  "round_double (10808639105689191 / 36028797018963968)
     = Finite (1351079888211149 / 4503599627370496)"
  using round_double_nearest [of "- 2" "10808639105689191 / 36028797018963968" 5404319552844596]
  by (simp add: pow2_def roundTiesToEven_def Let_def floor_numeral_div)

lemma sum_then_three_tenths:
  "round_double (10808639105689191 / 18014398509481984)
     = Finite (1351079888211149 / 2251799813685248)"
  using round_double_nearest [of "- 1" "10808639105689191 / 18014398509481984" 5404319552844596]
  by (simp add: pow2_def roundTiesToEven_def Let_def floor_numeral_div)

lemma double_half: "round_double (1 / 2) = Finite (1 / 2)"
  using round_double_exact [of "1 / 2" 1 "- 1"] by (simp add: pow2_def)

lemma sum_half_tenth:
  "round_double (21617278211378381 / 36028797018963968)
     = Finite (5404319552844595 / 9007199254740992)"
  using round_double_nearest [of "- 1" "21617278211378381 / 36028797018963968" 5404319552844595]
  by (simp add: pow2_def roundTiesToEven_def Let_def floor_numeral_div)

lemmas tenths_eval =
  double_tenth double_fifth double_three_tenths double_exact_tenth double_exact_fifth
  double_exact_three_tenths sum_tenth_fifth sum_then_three_tenths double_half sum_half_tenth

lemma totals_tenths:
  "calculateTotals tenths =
     \<lparr> subtotal = Finite (1351079888211149 / 2251799813685248), lineItemCount = 3,
       totalQuantity = Finite (1351079888211149 / 2251799813685248) \<rparr>"
  by (simp add: calculateTotals_def tenths_def toNumber_def tenths_eval)

lemma totals_rev_tenths:
  "calculateTotals (rev tenths) =
     \<lparr> subtotal = Finite (5404319552844595 / 9007199254740992), lineItemCount = 3,
       totalQuantity = Finite (5404319552844595 / 9007199254740992) \<rparr>"
  by (simp add: calculateTotals_def tenths_def toNumber_def tenths_eval)

text \<open>
  The claim C5 as it is stated fails: binary64 addition rounds, so it is not
  associative. For the quantities \<^verbatim>\<open>0.1\<close>, \<^verbatim>\<open>0.2\<close>, \<^verbatim>\<open>0.3\<close> the totals are
  \<^verbatim>\<open>0.6000000000000001\<close>; for the reversed list they are \<^verbatim>\<open>0.6\<close>.
\<close>

theorem totals_depend_on_order:
  "mset (rev tenths) = mset tenths
   \<and> subtotal (calculateTotals (rev tenths)) \<noteq> subtotal (calculateTotals tenths)
   \<and> totalQuantity (calculateTotals (rev tenths)) \<noteq> totalQuantity (calculateTotals tenths)"
  by (simp add: totals_tenths totals_rev_tenths)

lemma acme_totals:
  "calculateTotals acmeItems =
     \<lparr> subtotal = Finite 900, lineItemCount = 2, totalQuantity = Finite 7 \<rparr>"
  by (simp add: calculateTotals_def acmeItems_def lineItem_def toNumber_def round_double_numeral)

subsection \<open>The sample request\<close>

lemma acme_valid: "validRequest acmeRequest"
  using acme_name_not_blank acme_items_valid
  by (simp add: validRequest_def acmeRequest_def acmeItems_def)

lemma trim_samples:
  "trim (js ''Acme Ltd'') = js ''Acme Ltd''"
  "trim (js ''Consulting'') = js ''Consulting''"
  "trim (js ''Travel'') = js ''Travel''"
  "trim (js ''200'') = js ''200''"
  "trim (js ''2025-01-31'') = js ''2025-01-31''"
  by (simp_all add: trim_def js_def isWhiteSpace_def)

lemma acme_toQuoteData: "toQuoteData now acmeRequest = Inr (normalizedAcme (isoDate now))"
  by (simp add: toQuoteData_def acmeRequest_def acmeItems_def lineItem_def mapLineItem_def
      orElse_def today_isoDate normalizedAcme_def trim_samples)

lemma isoDate_newYear: "isoDate newYear = js ''2026-01-01''"
  by (simp add: isoDate_def newYear_def padStart_def decimalString.simps js_def)

lemma decimalValue_snoc: "decimalValue (ds @ [c]) = 10 * decimalValue ds + (int c - 0x30)"
  by (simp add: decimalValue_def)

lemma decimalValue_decimalString: "decimalValue (decimalString n) = int n"
proof (induction n rule: decimalString.induct)
  case (1 n)
  show ?case
  proof (cases "n < 10")
    case True
    then show ?thesis by (simp add: decimalString.simps [of n] decimalValue_def)
  next
    case False
    with "1.IH" have "decimalValue (decimalString (n div 10)) = int (n div 10)" by simp
    with False show ?thesis
      by (simp add: decimalString.simps [of n] decimalValue_snoc zdiv_int zmod_int)
  qed
qed

lemma decimalValue_zeros: "decimalValue (replicate k 0x30 @ ds) = decimalValue ds"
  by (induction k) (simp_all add: decimalValue_def)

lemma decimalValue_padStart: "decimalValue (padStart w n) = int n"
  by (simp add: padStart_def decimalValue_zeros decimalValue_decimalString)

lemma length_decimalString: "0 < w \<Longrightarrow> n < 10 ^ w \<Longrightarrow> length (decimalString n) \<le> w"
proof (induction n arbitrary: w rule: decimalString.induct)
  case (1 n)
  show ?case
  proof (cases "n < 10")
    case True
    with "1.prems" show ?thesis by (simp add: decimalString.simps [of n])
  next
    case False
    with "1.prems" have w: "1 < w" by (cases "w = 1") auto
    then obtain v where v: "w = Suc v" "0 < v" by (cases w) auto
    from "1.prems" v have "n div 10 < 10 ^ v" by (simp add: less_mult_imp_div_less)
    with False v "1.IH" [of v] have "length (decimalString (n div 10)) \<le> v" by simp
    with False v show ?thesis by (simp add: decimalString.simps [of n])
  qed
qed

lemma length_padStart: "0 < w \<Longrightarrow> n < 10 ^ w \<Longrightarrow> length (padStart w n) = w"
  using length_decimalString [of w n] by (simp add: padStart_def)

lemma isoDate_calendarDay:
  assumes "calendarDay t"
  shows "dateShape (isoDate t)"
    and "decimalValue (take 4 (isoDate t)) = year t"
    and "decimalValue (take 2 (drop 5 (isoDate t))) = int (month t)"
    and "decimalValue (drop 8 (isoDate t)) = int (day t)"
proof -
  let ?y = "padStart 4 (nat (year t))" and ?m = "padStart 2 (month t)"
    and ?d = "padStart 2 (day t)"
  from assms have iso: "isoDate t = ?y @ [0x2D] @ ?m @ [0x2D] @ ?d"
    by (simp add: isoDate_def calendarDay_def)
  from assms have "nat (year t) < 10 ^ 4" by (simp add: calendarDay_def) linarith
  then have ly: "length ?y = 4" by (intro length_padStart) simp_all
  from assms have lm: "length ?m = 2" by (intro length_padStart) (simp_all add: calendarDay_def)
  from assms have ld: "length ?d = 2" by (intro length_padStart) (simp_all add: calendarDay_def)
  have dig: "list_all isDigit (padStart w n)" for w n
    using padStart_digits [of _ w n] by (simp add: list_all_iff)
  show "dateShape (isoDate t)"
    unfolding iso dateShape_def using ly lm ld dig by (simp add: nth_append)
  show "decimalValue (take 4 (isoDate t)) = year t"
    unfolding iso using ly assms by (simp add: decimalValue_padStart calendarDay_def)
  show "decimalValue (take 2 (drop 5 (isoDate t))) = int (month t)"
    unfolding iso using ly lm by (simp add: decimalValue_padStart)
  show "decimalValue (drop 8 (isoDate t)) = int (day t)"
    unfolding iso using ly lm ld by (simp add: decimalValue_padStart)
qed

lemma isoDate_nextDay: "isoDate nextDay = js ''2026-01-02''"
  by (simp add: isoDate_def nextDay_def newYear_def padStart_def decimalString.simps js_def)

text \<open>
  C2. The sample request is valid; \<open>toQuoteData\<close> gives both line items the account
  code \<^verbatim>\<open>200\<close> and sets the date to the day the clock shows; the totals are a
  subtotal of 900, two line items and a total quantity of 7. The date has the
  \<^verbatim>\<open>YYYY-MM-DD\<close> shape, and its three groups of digits read as the year, the month and
  the day of the clock: read on 1 January 2026 it is \<^verbatim>\<open>2026-01-01\<close>, read a day later
  \<^verbatim>\<open>2026-01-02\<close>.
\<close>

theorem acme_end_to_end:
  "validateQuoteData acmeRequest = \<lparr> valid = True, errors = [] \<rparr>
   \<and> toQuoteData now acmeRequest =
       Inr \<lparr> contactName = Some (js ''Acme Ltd''), contactEmail = None,
             lineItems = Some
               [\<lparr> description = Some (js ''Consulting''), quantity = Some (Finite 5),
                  unitAmount = Some (Finite 150), accountCode = Some (js ''200'') \<rparr>,
                \<lparr> description = Some (js ''Travel''), quantity = Some (Finite 2),
                  unitAmount = Some (Finite 75), accountCode = Some (js ''200'') \<rparr>],
             reference = None, termsAndConditions = None, date = Some (isoDate now) \<rparr>
   \<and> (calendarDay now \<longrightarrow>
        dateShape (isoDate now)
        \<and> decimalValue (take 4 (isoDate now)) = year now
        \<and> decimalValue (take 2 (drop 5 (isoDate now))) = int (month now)
        \<and> decimalValue (drop 8 (isoDate now)) = int (day now))
   \<and> isoDate newYear = js ''2026-01-01''
   \<and> isoDate nextDay = js ''2026-01-02''
   \<and> calculateTotals acmeItems =
       \<lparr> subtotal = Finite 900, lineItemCount = 2, totalQuantity = Finite 7 \<rparr>"
proof -
  have e: "errors (validateQuoteData acmeRequest) = []"
    using acme_valid by (rule valid_request_no_errors)
  then have "valid (validateQuoteData acmeRequest)" by (simp add: valid_iff_no_errors)
  with e have v: "validateQuoteData acmeRequest = \<lparr> valid = True, errors = [] \<rparr>"
    by (cases "validateQuoteData acmeRequest") simp
  have q: "toQuoteData now acmeRequest =
       Inr \<lparr> contactName = Some (js ''Acme Ltd''), contactEmail = None,
             lineItems = Some
               [\<lparr> description = Some (js ''Consulting''), quantity = Some (Finite 5),
                  unitAmount = Some (Finite 150), accountCode = Some (js ''200'') \<rparr>,
                \<lparr> description = Some (js ''Travel''), quantity = Some (Finite 2),
                  unitAmount = Some (Finite 75), accountCode = Some (js ''200'') \<rparr>],
             reference = None, termsAndConditions = None, date = Some (isoDate now) \<rparr>"
    by (simp add: acme_toQuoteData normalizedAcme_def lineItem_def)
  have d: "dateShape (isoDate now)
        \<and> decimalValue (take 4 (isoDate now)) = year now
        \<and> decimalValue (take 2 (drop 5 (isoDate now))) = int (month now)
        \<and> decimalValue (drop 8 (isoDate now)) = int (day now)" if "calendarDay now"
    using isoDate_calendarDay [OF that] by simp
  from v q d isoDate_newYear isoDate_nextDay acme_totals show ?thesis by blast
qed

theorem acme_end_to_end_witness:
  "calendarDay nextDay
   \<and> dateShape (isoDate nextDay)
   \<and> decimalValue (take 4 (isoDate nextDay)) = 2026
   \<and> decimalValue (take 2 (drop 5 (isoDate nextDay))) = 1
   \<and> decimalValue (drop 8 (isoDate nextDay)) = 2"
proof -
  have c: "calendarDay nextDay" by (simp add: calendarDay_def nextDay_def newYear_def)
  have f: "year nextDay = 2026" "month nextDay = 1" "day nextDay = 2"
    by (simp_all add: nextDay_def newYear_def)
  from acme_end_to_end [of nextDay] c
  have "dateShape (isoDate nextDay)
        \<and> decimalValue (take 4 (isoDate nextDay)) = year nextDay
        \<and> decimalValue (take 2 (drop 5 (isoDate nextDay))) = int (month nextDay)
        \<and> decimalValue (drop 8 (isoDate nextDay)) = int (day nextDay)"
    by blast
  with c f show ?thesis by simp
qed

lemma normalizedAcme_normalized: "trim d = d \<Longrightarrow> normalized (normalizedAcme d)"
  by (simp add: normalized_def normalizedAcme_def normalizedItem_def trimmedOpt_def lineItem_def
      trim_samples)

text \<open>
  The claim C6 as it is stated also covers a normalised request whose date is present and
  empty: \<open>toQuoteData\<close> replaces the empty date by the current day, so the result
  differs from the input.
\<close>

theorem empty_date_replaced:
  "normalized (normalizedAcme [])
   \<and> toQuoteData newYear (normalizedAcme []) = Inr (normalizedAcme (js ''2026-01-01''))
   \<and> toQuoteData newYear (normalizedAcme []) \<noteq> Inr (normalizedAcme [])"
proof -
  have n: "normalized (normalizedAcme [])" by (rule normalizedAcme_normalized) simp
  have q: "toQuoteData newYear (normalizedAcme []) = Inr (normalizedAcme (js ''2026-01-01''))"
    by (simp add: toQuoteData_def normalizedAcme_def lineItem_def mapLineItem_def
      orElse_def today_isoDate isoDate_newYear trim_samples)
  have "normalizedAcme (js ''2026-01-01'') \<noteq> normalizedAcme []"
    by (simp add: normalizedAcme_def js_def)
  with n q show ?thesis by simp
qed

theorem toQuoteData_idempotent_witness:
  "date (normalizedAcme (js ''2025-01-31'')) = Some (js ''2025-01-31'')
   \<and> normalized (normalizedAcme (js ''2025-01-31''))
   \<and> nonEmptyCodes (normalizedAcme (js ''2025-01-31''))
   \<and> js ''2025-01-31'' \<noteq> []
   \<and> (case toQuoteData newYear (normalizedAcme (js ''2025-01-31'')) of
         Inl e \<Rightarrow> Inl e | Inr q \<Rightarrow> toQuoteData nextDay q)
       = toQuoteData newYear (normalizedAcme (js ''2025-01-31''))
   \<and> toQuoteData newYear (normalizedAcme (js ''2025-01-31''))
       = Inr (normalizedAcme (js ''2025-01-31''))"
proof -
  have d: "date (normalizedAcme (js ''2025-01-31'')) = Some (js ''2025-01-31'')"
    by (simp add: normalizedAcme_def)
  have n: "normalized (normalizedAcme (js ''2025-01-31''))"
    by (rule normalizedAcme_normalized) (rule trim_samples)
  have c: "nonEmptyCodes (normalizedAcme (js ''2025-01-31''))"
    by (simp add: nonEmptyCodes_def normalizedAcme_def lineItem_def js_def)
  have ne: "js ''2025-01-31'' \<noteq> []" by (simp add: js_def)
  from toQuoteData_idempotent [OF d, where now = newYear and later = nextDay] d n c ne
  show ?thesis by blast
qed

theorem totals_permutation_whole_numbers_witness:
  "mset (rev tenths) = mset tenths
   \<and> lineItemCount (calculateTotals (rev tenths)) = lineItemCount (calculateTotals tenths)
   \<and> mset (rev (map wholeItem acmeWhole)) = mset (map wholeItem acmeWhole)
   \<and> (\<Sum>p\<leftarrow>acmeWhole. \<bar>wholeLineTotal p\<bar>) < 2 ^ 53
   \<and> (\<Sum>p\<leftarrow>acmeWhole. \<bar>wholeQuantity p\<bar>) < 2 ^ 53
   \<and> calculateTotals (rev (map wholeItem acmeWhole)) = calculateTotals (map wholeItem acmeWhole)"
proof -
  have a: "mset (rev tenths) = mset tenths" by simp
  have b: "mset (rev (map wholeItem acmeWhole)) = mset (map wholeItem acmeWhole)" by simp
  have t: "(\<Sum>p\<leftarrow>acmeWhole. \<bar>wholeLineTotal p\<bar>) < 2 ^ 53"
    by (simp add: acmeWhole_def wholeLineTotal_def)
  have q: "(\<Sum>p\<leftarrow>acmeWhole. \<bar>wholeQuantity p\<bar>) < 2 ^ 53"
    by (simp add: acmeWhole_def wholeQuantity_def)
  from totals_permutation_whole_numbers
    [of "rev tenths" tenths "rev (map wholeItem acmeWhole)" acmeWhole] a b t q
  show ?thesis by blast
qed

subsection \<open>Parsing amounts and quantities\<close>

lemma round_double_not_NaN: "round_double x \<noteq> NaN"
  by (simp add: round_double_def Let_def)

lemma infinity_not_NaN: "infinity s \<noteq> NaN"
  by (simp add: infinity_def)

lemma takeWhile_Nil_iff: "takeWhile P xs = [] \<longleftrightarrow> xs = [] \<or> \<not> P (hd xs)"
  by (cases xs) simp_all

lemma scan_NaN_iff:
  "isNaN
     (if take 8 u = js ''Infinity'' then infinity sg
      else
        let ip = takeWhile isDigit u;
            r1 = dropWhile isDigit u;
            fp = (case r1 of [] \<Rightarrow> [] | c # r \<Rightarrow> if c = 0x2E then takeWhile isDigit r else []);
            r2 = (case r1 of [] \<Rightarrow> [] | c # r \<Rightarrow> if c = 0x2E then dropWhile isDigit r else r1)
        in if ip = [] \<and> fp = [] then NaN
           else round_double
                  (sg * (of_int (decimalValue ip) + of_int (decimalValue fp) / 10 ^ length fp)
                      * pow10 (exponentPart r2)))
   \<longleftrightarrow>
   \<not> (take 8 u = js ''Infinity''
       \<or> (case u of
             [] \<Rightarrow> False
           | c # r \<Rightarrow>
               isDigit c \<or> (c = 0x2E \<and> (case r of [] \<Rightarrow> False | d # r' \<Rightarrow> isDigit d))))"
proof (cases "take 8 u = js ''Infinity''")
  case True
  then show ?thesis by (simp add: isNaN_def infinity_not_NaN)
next
  case False
  show ?thesis
  proof (cases u)
    case Nil
    with False show ?thesis by (simp add: isNaN_def)
  next
    case (Cons c r)
    show ?thesis
    proof (cases "isDigit c")
      case True
      with False Cons show ?thesis
        by (simp add: isNaN_def round_double_not_NaN Let_def)
    next
      case nd: False
      with False Cons show ?thesis
        by (cases r) (auto simp: isNaN_def round_double_not_NaN Let_def takeWhile_Nil_iff)
    qed
  qed
qed

lemma parseFloat_NaN_iff:
  "isNaN (parseFloat s) \<longleftrightarrow> \<not> startsNumber (dropWhile isWhiteSpace s)"
proof -
  define t where "t = dropWhile isWhiteSpace s"
  obtain sg u where su: "stripSign t = (sg, u)" by (cases "stripSign t")
  have u: "u = (case t of [] \<Rightarrow> [] | c # r \<Rightarrow> if c = 0x2B \<or> c = 0x2D then r else t)"
    using su by (auto simp: stripSign_def split: list.splits if_splits)
  have "startsNumber t \<longleftrightarrow>
          (take 8 u = js ''Infinity''
           \<or> (case u of
                 [] \<Rightarrow> False
               | c # r \<Rightarrow>
                   isDigit c \<or> (c = 0x2E \<and> (case r of [] \<Rightarrow> False | d # r' \<Rightarrow> isDigit d))))"
    unfolding startsNumber_def u Let_def ..
  then show ?thesis
    unfolding parseFloat_def t_def [symmetric] su prod.case scan_NaN_iff by simp
qed

lemma dropWhile_trim: "dropWhile isWhiteSpace (trim s) = trim s"
  by (simp add: trim_def dropWhile_rev_dropWhile)

lemma parseFloat_trim_NaN_iff: "isNaN (parseFloat (trim s)) \<longleftrightarrow> \<not> startsNumber (trim s)"
  by (simp add: parseFloat_NaN_iff dropWhile_trim)

lemma split_str_not_Nil: "split_str sep s \<noteq> []"
  by (induction s) (auto split: list.splits)

lemma split_str_two:
  "sep \<in> set s \<Longrightarrow> \<exists>a b rest. split_str sep s = a # b # rest"
proof (induction s)
  case Nil
  then show ?case by simp
next
  case (Cons c cs)
  show ?case
  proof (cases "c = sep")
    case True
    then show ?thesis using split_str_not_Nil [of sep cs] by (cases "split_str sep cs") simp_all
  next
    case False
    with Cons.prems have "sep \<in> set cs" by simp
    then obtain a b rest where "split_str sep cs = a # b # rest"
      using Cons.IH by blast
    with False show ?thesis by simp
  qed
qed

lemma positive_iff: "\<not> isNaN p \<and> \<not> nle p (Finite 0) \<longleftrightarrow> nlt (Finite 0) p"
  by (cases p) (simp_all add: isNaN_def not_le)

lemma decimalNumber_startsNumber:
  assumes "test decimalNumber t"
  shows "startsNumber t"
proof -
  from assms have "t \<in> lang decimalNumber" by (simp add: test_iff_lang)
  then obtain sign body where t: "t = sign @ body"
    and sign: "sign \<in> lang (Alt Epsilon (Class (\<lambda>c. c = 0x2B \<or> c = 0x2D)))"
    and body: "body \<in> lang (Seq (Plus (Class isDigit))
                               (Alt Epsilon (Seq (Class (\<lambda>c. c = 0x2E)) (Star (Class isDigit)))))
               \<or> body \<in> lang (Seq (Class (\<lambda>c. c = 0x2E)) (Plus (Class isDigit)))"
    unfolding decimalNumber_def lang.simps(4,5) conc_def by blast
  from sign have sign': "sign = [] \<or> sign = [0x2B] \<or> sign = [0x2D]" by auto
  have body': "(\<exists>c r. body = c # r \<and> isDigit c) \<or> (\<exists>c r. body = 0x2E # c # r \<and> isDigit c)"
    using body
  proof
    assume "body \<in> lang (Seq (Plus (Class isDigit))
                               (Alt Epsilon (Seq (Class (\<lambda>c. c = 0x2E)) (Star (Class isDigit)))))"
    then obtain u v where "body = u @ v" "u \<in> lang (Plus (Class isDigit))"
      unfolding lang.simps(5) conc_def by blast
    then have "body = u @ v" "u \<noteq> []" "list_all isDigit u" by (simp_all add: lang_Plus_Class)
    then show ?thesis by (cases u) auto
  next
    assume "body \<in> lang (Seq (Class (\<lambda>c. c = 0x2E)) (Plus (Class isDigit)))"
    then have "body \<noteq> []" "hd body = 0x2E" "tl body \<noteq> []" "list_all isDigit (tl body)"
      by (simp_all add: lang_Seq_Class lang_Plus_Class del: lang.simps)
    then show ?thesis by (cases body; cases "tl body") auto
  qed
  have nosign: "\<not> (c = 0x2B \<or> c = 0x2D)" if "isDigit c \<or> c = 0x2E" for c :: nat
    using that by (auto simp: isDigit_def)
  from sign' body' show ?thesis
    unfolding t startsNumber_def Let_def
    by (auto simp: nosign isDigit_def)
qed

lemma parseCurrency_Str:
  "parseCurrency (Str s) =
     (if startsNumber (trim (filter (\<lambda>c. \<not> isCurrencyOrComma c) s))
      then Inr (parseFloat (trim (filter (\<lambda>c. \<not> isCurrencyOrComma c) s)))
      else Inl (Error (js ''Invalid currency format: '' @ s)))"
  by (simp add: parseCurrency_def Let_def parseFloat_trim_NaN_iff)

lemma parseFloat_1500: "parseFloat (js ''1500.00'') = Finite 1500"
  using round_double_of_int [of 1500] by (simp add: parseFloat_eval)

lemma parseCurrency_1500: "parseCurrency (Str (js ''$1,500.00'')) = Inr (Finite 1500)"
proof -
  have "trim (filter (\<lambda>c. \<not> isCurrencyOrComma c) (js ''$1,500.00'')) = js ''1500.00''"
    by (simp add: js_def isCurrencyOrComma_def trim_def isWhiteSpace_def)
  then show ?thesis
    using parseFloat_1500 by (simp add: parseCurrency_def isNaN_def)
qed

lemma parseCurrency_not_a_number:
  "parseCurrency (Str (js ''not-a-number''))
     = Inl (Error (js ''Invalid currency format: not-a-number''))"
proof -
  have "\<not> startsNumber (trim (filter (\<lambda>c. \<not> isCurrencyOrComma c) (js ''not-a-number'')))"
    by (simp add: js_def isCurrencyOrComma_def trim_def isWhiteSpace_def startsNumber_def
        isDigit_def)
  then show ?thesis by (simp add: parseCurrency_Str) (simp add: js_def)
qed

text \<open>The pound sign is not among the characters that are removed.\<close>

lemma parseCurrency_pound_sign:
  "parseCurrency (Str (0xA3 # js ''50.00''))
     = Inl (Error (js ''Invalid currency format: '' @ 0xA3 # js ''50.00''))"
proof -
  have "\<not> startsNumber (trim (filter (\<lambda>c. \<not> isCurrencyOrComma c) (0xA3 # js ''50.00'')))"
    by (simp add: js_def isCurrencyOrComma_def trim_def isWhiteSpace_def startsNumber_def
        isDigit_def)
  then show ?thesis by (simp add: parseCurrency_Str)
qed

text \<open>
  C4, as amended. For a string in which the only currency symbols are the dollar and the
  euro sign: \<open>parseCurrency\<close> removes every dollar sign, euro sign and comma, trims the
  rest, and reads the number at its start. It throws exactly when the rest does not
  begin with a number, and so never when the rest is a decimal number; whatever follows
  the number is ignored. \<^verbatim>\<open>$1,500.00\<close> gives 1500 and \<^verbatim>\<open>not-a-number\<close> is rejected.
\<close>

theorem parseCurrency_reads_leading_number:
  assumes "\<forall>c \<in> set s. currencySymbol c \<longrightarrow> c = 0x24 \<or> c = 0x20AC"
  shows
    "parseCurrency (Str s) =
       (if startsNumber (trim (filter (\<lambda>c. \<not> isCurrencyOrComma c) s))
        then Inr (parseFloat (trim (filter (\<lambda>c. \<not> isCurrencyOrComma c) s)))
        else Inl (Error (js ''Invalid currency format: '' @ s)))
     \<and> (test decimalNumber (trim (filter (\<lambda>c. \<not> isCurrencyOrComma c) s)) \<longrightarrow>
          parseCurrency (Str s) = Inr (parseFloat (trim (filter (\<lambda>c. \<not> isCurrencyOrComma c) s))))
     \<and> parseCurrency (Str (js ''$1,500.00'')) = Inr (Finite 1500)
     \<and> parseCurrency (Str (js ''not-a-number''))
         = Inl (Error (js ''Invalid currency format: not-a-number''))"
proof -
  have "parseCurrency (Str s) = Inr (parseFloat (trim (filter (\<lambda>c. \<not> isCurrencyOrComma c) s)))"
    if "test decimalNumber (trim (filter (\<lambda>c. \<not> isCurrencyOrComma c) s))"
    using decimalNumber_startsNumber [OF that] by (simp add: parseCurrency_Str)
  then show ?thesis
    using parseCurrency_Str [of s] parseCurrency_1500 parseCurrency_not_a_number by blast
qed

theorem parseCurrency_reads_leading_number_witness:
  "test decimalNumber (trim (filter (\<lambda>c. \<not> isCurrencyOrComma c) (js ''$1,500.00'')))
   \<and> parseCurrency (Str (js ''$1,500.00''))
       = Inr (parseFloat (trim (filter (\<lambda>c. \<not> isCurrencyOrComma c) (js ''$1,500.00''))))"
proof -
  have h: "\<forall>c \<in> set (js ''$1,500.00''). currencySymbol c \<longrightarrow> c = 0x24 \<or> c = 0x20AC"
    by (simp add: js_def currencySymbol_def)
  have "trim (filter (\<lambda>c. \<not> isCurrencyOrComma c) (js ''$1,500.00'')) = js ''1500.00''"
    by (simp add: js_def isCurrencyOrComma_def trim_def isWhiteSpace_def)
  moreover have "test decimalNumber (js ''1500.00'')"
    by (simp add: test_def decimalNumber_def Plus_def js_def isDigit_def)
  ultimately have d: "test decimalNumber
      (trim (filter (\<lambda>c. \<not> isCurrencyOrComma c) (js ''$1,500.00'')))" by simp
  from parseCurrency_reads_leading_number [OF h] h d show ?thesis by blast
qed

text \<open>
  The claim C4 as it is stated fails: the rest \<^verbatim>\<open>50 USD\<close> is not a decimal number, and
  \<open>parseCurrency\<close> returns 50 for it.
\<close>

theorem trailing_text_ignored_by_parseCurrency:
  "\<not> test decimalNumber (trim (filter (\<lambda>c. \<not> isCurrencyOrComma c) (js ''50 USD'')))
   \<and> parseCurrency (Str (js ''50 USD'')) = Inr (Finite 50)"
proof -
  have r: "trim (filter (\<lambda>c. \<not> isCurrencyOrComma c) (js ''50 USD'')) = js ''50 USD''"
    by (simp add: js_def isCurrencyOrComma_def trim_def isWhiteSpace_def)
  have "\<not> test decimalNumber (js ''50 USD'')"
    by (simp add: test_def decimalNumber_def Plus_def js_def isDigit_def)
  moreover have "parseFloat (js ''50 USD'') = Finite 50"
    using round_double_of_int [of 50] by (simp add: parseFloat_eval)
  ultimately show ?thesis by (simp add: r parseCurrency_def isNaN_def)
qed

lemma parseQuantity_decimal:
  assumes "0x2F \<notin> set s"
  shows "parseQuantity (Str s) =
           (if \<not> startsNumber (trim s) \<or> nle (parseFloat (trim s)) (Finite 0)
            then Inl (Error (js ''Invalid quantity: '' @ s))
            else Inr (parseFloat (trim s)))"
  using assms by (simp add: parseQuantity_def Let_def parseFloat_trim_NaN_iff)

lemma parseQuantity_fraction:
  assumes "0x2F \<in> set s"
  shows "parseQuantity (Str s) =
           (if \<not> startsNumber (trim (split_str 0x2F s ! 0))
               \<or> \<not> startsNumber (trim (split_str 0x2F s ! 1))
               \<or> parseFloat (trim (split_str 0x2F s ! 1)) = Finite 0
            then Inl (Error (js ''Invalid fraction format: '' @ s))
            else Inr (ndiv (parseFloat (trim (split_str 0x2F s ! 0)))
                           (parseFloat (trim (split_str 0x2F s ! 1)))))"
proof -
  from split_str_two [OF assms] obtain a b rest where sp: "split_str 0x2F s = a # b # rest"
    by blast
  show ?thesis
    using assms by (simp add: parseQuantity_def sp parseFloat_trim_NaN_iff)
qed

lemma parseFloat_small:
  "parseFloat (js ''1'') = Finite 1" "parseFloat (js ''2'') = Finite 2"
  "parseFloat (js ''3'') = Finite 3" "parseFloat (js ''4'') = Finite 4"
  "parseFloat (js ''0'') = Finite 0" "parseFloat (js ''-1'') = Finite (- 1)"
  using round_double_of_int [of 1] round_double_of_int [of 2] round_double_of_int [of 3]
    round_double_of_int [of 4] round_double_of_int [of "- 1"]
  by (simp_all add: parseFloat_eval round_double_def)

lemma trim_small:
  "trim (js ''1'') = js ''1''" "trim (js ''2'') = js ''2''" "trim (js ''3'') = js ''3''"
  "trim (js ''4'') = js ''4''" "trim (js ''0'') = js ''0''" "trim (js ''-1'') = js ''-1''"
  by (simp_all add: trim_def js_def isWhiteSpace_def)

lemma split_small:
  "split_str 0x2F (js ''1/2'') = [js ''1'', js ''2'']"
  "split_str 0x2F (js ''3/0'') = [js ''3'', js ''0'']"
  "split_str 0x2F (js ''3/4'') = [js ''3'', js ''4'']"
  "split_str 0x2F (js ''-1/2'') = [js ''-1'', js ''2'']"
  by (simp_all add: js_def)

lemma double_three_quarters: "round_double (3 / 4) = Finite (3 / 4)"
  using round_double_exact [of "3 / 4" 3 "- 2"] by (simp add: pow2_def)

lemma double_minus_half: "round_double (- (1 / 2)) = Finite (- (1 / 2))"
  using round_double_exact [of "- (1 / 2)" "- 1" "- 1"] by (simp add: pow2_def)

lemma parseQuantity_half: "parseQuantity (Str (js ''1/2'')) = Inr (Finite (1 / 2))"
  by (simp add: parseQuantity_def split_small trim_small parseFloat_small isNaN_def double_half)
    (simp add: js_def)

lemma parseQuantity_three_over_zero:
  "parseQuantity (Str (js ''3/0'')) = Inl (Error (js ''Invalid fraction format: 3/0''))"
  by (simp add: parseQuantity_def split_small trim_small parseFloat_small isNaN_def)
    (simp add: js_def)

text \<open>The fraction branch does not look at the sign of the quotient.\<close>

lemma parseQuantity_minus_half: "parseQuantity (Str (js ''-1/2'')) = Inr (Finite (- (1 / 2)))"
  by (simp add: parseQuantity_def split_small trim_small parseFloat_small isNaN_def
      double_minus_half)
    (simp add: js_def)

text \<open>
  C3, as amended. Without a slash, \<open>parseQuantity\<close> reads the number at the start of
  the trimmed text and throws exactly when there is none or when it is \<open>\<le> 0\<close>. With a
  slash, it reads the numbers at the start of the first two parts; it throws when one of
  them is missing or the second is zero, and returns the quotient when both are there,
  the second is not zero and the quotient is above zero. \<^verbatim>\<open>1/2\<close> gives 0.5 and
  \<^verbatim>\<open>3/0\<close> is rejected.
\<close>

theorem parseQuantity_reads_leading_numbers:
  "(0x2F \<notin> set s \<longrightarrow>
      parseQuantity (Str s) =
        (if \<not> startsNumber (trim s) \<or> nle (parseFloat (trim s)) (Finite 0)
         then Inl (Error (js ''Invalid quantity: '' @ s))
         else Inr (parseFloat (trim s))))
   \<and> (0x2F \<in> set s
        \<and> (\<not> startsNumber (trim (split_str 0x2F s ! 0))
            \<or> \<not> startsNumber (trim (split_str 0x2F s ! 1))
            \<or> parseFloat (trim (split_str 0x2F s ! 1)) = Finite 0) \<longrightarrow>
      parseQuantity (Str s) = Inl (Error (js ''Invalid fraction format: '' @ s)))
   \<and> (0x2F \<in> set s
        \<and> startsNumber (trim (split_str 0x2F s ! 0))
        \<and> startsNumber (trim (split_str 0x2F s ! 1))
        \<and> parseFloat (trim (split_str 0x2F s ! 1)) \<noteq> Finite 0
        \<and> nlt (Finite 0) (ndiv (parseFloat (trim (split_str 0x2F s ! 0)))
                                (parseFloat (trim (split_str 0x2F s ! 1)))) \<longrightarrow>
      parseQuantity (Str s) =
        Inr (ndiv (parseFloat (trim (split_str 0x2F s ! 0)))
                  (parseFloat (trim (split_str 0x2F s ! 1)))))
   \<and> parseQuantity (Str (js ''1/2'')) = Inr (Finite (1 / 2))
   \<and> parseQuantity (Str (js ''3/0'')) = Inl (Error (js ''Invalid fraction format: 3/0''))"
proof -
  have decimal: "parseQuantity (Str s) =
        (if \<not> startsNumber (trim s) \<or> nle (parseFloat (trim s)) (Finite 0)
         then Inl (Error (js ''Invalid quantity: '' @ s))
         else Inr (parseFloat (trim s)))" if "0x2F \<notin> set s"
    using that by (rule parseQuantity_decimal)
  have bad: "parseQuantity (Str s) = Inl (Error (js ''Invalid fraction format: '' @ s))"
    if "0x2F \<in> set s" and "\<not> startsNumber (trim (split_str 0x2F s ! 0))
            \<or> \<not> startsNumber (trim (split_str 0x2F s ! 1))
            \<or> parseFloat (trim (split_str 0x2F s ! 1)) = Finite 0"
    using that by (simp only: parseQuantity_fraction if_True)
  have good: "parseQuantity (Str s) =
        Inr (ndiv (parseFloat (trim (split_str 0x2F s ! 0)))
                  (parseFloat (trim (split_str 0x2F s ! 1))))"
    if "0x2F \<in> set s" and "startsNumber (trim (split_str 0x2F s ! 0))"
      and "startsNumber (trim (split_str 0x2F s ! 1))"
      and "parseFloat (trim (split_str 0x2F s ! 1)) \<noteq> Finite 0"
    using that by (simp add: parseQuantity_fraction)
  from decimal bad good parseQuantity_half parseQuantity_three_over_zero
  show ?thesis by blast
qed

theorem parseQuantity_reads_leading_numbers_witness:
  "0x2F \<notin> set (js ''4'')
   \<and> parseQuantity (Str (js ''4'')) = Inr (Finite 4)
   \<and> 0x2F \<in> set (js ''3/4'')
   \<and> startsNumber (trim (split_str 0x2F (js ''3/4'') ! 0))
   \<and> startsNumber (trim (split_str 0x2F (js ''3/4'') ! 1))
   \<and> parseFloat (trim (split_str 0x2F (js ''3/4'') ! 1)) \<noteq> Finite 0
   \<and> parseQuantity (Str (js ''3/4'')) = Inr (Finite (3 / 4))
   \<and> 0x2F \<in> set (js ''3/0'')
   \<and> parseFloat (trim (split_str 0x2F (js ''3/0'') ! 1)) = Finite 0
   \<and> parseQuantity (Str (js ''3/0'')) = Inl (Error (js ''Invalid fraction format: 3/0''))"
proof -
  have s4: "startsNumber (js ''4'')" "startsNumber (js ''3'')"
    by (simp_all add: startsNumber_def js_def isDigit_def)
  have a: "0x2F \<notin> set (js ''4'')" "0x2F \<in> set (js ''3/4'')" "0x2F \<in> set (js ''3/0'')"
    by (simp_all add: js_def)
  have q: "ndiv (Finite 3) (Finite 4) = Finite (3 / 4)" by (simp add: double_three_quarters)
  from parseQuantity_reads_leading_numbers [of "js ''4''"]
    parseQuantity_reads_leading_numbers [of "js ''3/4''"]
    parseQuantity_reads_leading_numbers [of "js ''3/0''"] a s4 q
  show ?thesis
    by (simp add: split_small trim_small parseFloat_small) (simp add: js_def)
qed

text \<open>
  The claim C3 as it is stated fails: \<^verbatim>\<open>3 hours\<close> has a part that is not numeric, and
  \<open>parseQuantity\<close> returns 3 for it.
\<close>

theorem trailing_text_ignored_by_parseQuantity:
  "\<not> test decimalNumber (js ''3 hours'')
   \<and> parseQuantity (Str (js ''3 hours'')) = Inr (Finite 3)"
proof -
  have "\<not> test decimalNumber (js ''3 hours'')"
    by (simp add: test_def decimalNumber_def Plus_def js_def isDigit_def)
  moreover have "parseFloat (trim (js ''3 hours'')) = Finite 3"
    using round_double_of_int [of 3] by (simp add: parseFloat_eval)
  moreover have "0x2F \<notin> set (js ''3 hours'')" by (simp add: js_def)
  ultimately show ?thesis by (simp add: parseQuantity_def isNaN_def)
qed

end
